theory Spec2Isabelle
  imports Complex_Main "HOL-Library.List_Lexorder" "HOL-Library.Char_ord" "HOL-Library.Log_Nat"
begin

section \<open>Strings\<close>

text \<open>
  Python strings are modelled as \<^typ>\<open>string\<close>, a character being a code point below 256
  (Latin-1). \<open>str.lower\<close> maps the letters \<open>A\<close> to \<open>Z\<close> and the capital letters
  \<open>0xC0\<close> to \<open>0xDE\<close> (but for the multiplication sign \<open>0xD7\<close>) to their small letters and
  leaves every other character alone. Whitespace (\<open>str.strip\<close>, the class \<open>\s\<close>) is what
  \<open>str.isspace\<close> accepts below 256: tab to carriage return, the four separators
  \<open>0x1C\<close> to \<open>0x1F\<close>, the space, next line \<open>0x85\<close> and the no-break space \<open>0xA0\<close>.
\<close>

definition upper_letters :: "char list" where
  "upper_letters = ''ABCDEFGHIJKLMNOPQRSTUVWXYZ'' @
     [CHR 0xC0, CHR 0xC1, CHR 0xC2, CHR 0xC3, CHR 0xC4, CHR 0xC5, CHR 0xC6, CHR 0xC7,
      CHR 0xC8, CHR 0xC9, CHR 0xCA, CHR 0xCB, CHR 0xCC, CHR 0xCD, CHR 0xCE, CHR 0xCF,
      CHR 0xD0, CHR 0xD1, CHR 0xD2, CHR 0xD3, CHR 0xD4, CHR 0xD5, CHR 0xD6,
      CHR 0xD8, CHR 0xD9, CHR 0xDA, CHR 0xDB, CHR 0xDC, CHR 0xDD, CHR 0xDE]"

definition lower_letters :: "char list" where
  "lower_letters = ''abcdefghijklmnopqrstuvwxyz'' @
     [CHR 0xE0, CHR 0xE1, CHR 0xE2, CHR 0xE3, CHR 0xE4, CHR 0xE5, CHR 0xE6, CHR 0xE7,
      CHR 0xE8, CHR 0xE9, CHR 0xEA, CHR 0xEB, CHR 0xEC, CHR 0xED, CHR 0xEE, CHR 0xEF,
      CHR 0xF0, CHR 0xF1, CHR 0xF2, CHR 0xF3, CHR 0xF4, CHR 0xF5, CHR 0xF6,
      CHR 0xF8, CHR 0xF9, CHR 0xFA, CHR 0xFB, CHR 0xFC, CHR 0xFD, CHR 0xFE]"

definition lower_char :: "char \<Rightarrow> char" where
  "lower_char c =
     (case map_of (zip upper_letters lower_letters) c of
        Some d \<Rightarrow> d
      | None \<Rightarrow> c)"

definition lower :: "string \<Rightarrow> string" where
  "lower s = map lower_char s"

definition whitespace :: "char list" where
  "whitespace = [CHR '' '', CHR 0x09, CHR 0x0A, CHR 0x0B, CHR 0x0C, CHR 0x0D,
                 CHR 0x1C, CHR 0x1D, CHR 0x1E, CHR 0x1F, CHR 0x85, CHR 0xA0]"

definition is_space :: "char \<Rightarrow> bool" where
  "is_space c = (c \<in> set whitespace)"

definition digit_chars :: "char list" where
  "digit_chars = ''0123456789''"

definition is_digit :: "char \<Rightarrow> bool" where
  "is_digit c = (c \<in> set digit_chars)"

text \<open>\<open>s.strip()\<close>: whitespace removed at both ends.\<close>

definition strip :: "string \<Rightarrow> string" where
  "strip s = rev (dropWhile is_space (rev (dropWhile is_space s)))"

text \<open>\<open>s.replace(c, '')\<close> for a one-character \<open>c\<close>.\<close>

definition remove_char :: "char \<Rightarrow> string \<Rightarrow> string" where
  "remove_char c s = filter (\<lambda>x. x \<noteq> c) s"

text \<open>\<open>sub in s\<close>: \<open>sub\<close> occurs in \<open>s\<close> as a contiguous piece.\<close>

fun startswith :: "string \<Rightarrow> string \<Rightarrow> bool" where
  "startswith s [] = True"
| "startswith [] (y # ys) = False"
| "startswith (x # xs) (y # ys) = (x = y \<and> startswith xs ys)"

fun contains :: "string \<Rightarrow> string \<Rightarrow> bool" where
  "contains [] sub = (sub = [])"
| "contains (x # xs) sub = (startswith (x # xs) sub \<or> contains xs sub)"

text \<open>\<open>any(p(x) for x in xs)\<close>.\<close>

definition any :: "('a \<Rightarrow> bool) \<Rightarrow> 'a list \<Rightarrow> bool" where
  "any p xs = list_ex p xs"

section \<open>Regular expressions\<close>

text \<open>
  The patterns of the provider table are regular expressions of Python's \<open>re\<close> module.
  They are modelled by their syntax tree and a backtracking matcher that lists the ways
  a pattern matches at the start of a text in the order in which \<open>re\<close> tries them
  (left alternative first, greedy repetition first). A capturing group is numbered as in the
  pattern; a non-capturing group \<open>(?:...)\<close> is just its body. A repetition goes round
  again only after an iteration that consumed something; an iteration that consumed nothing
  is kept (with what its groups captured) and ends the repetition, as in \<open>re\<close>.
\<close>

datatype regex =
    Eps
  | Lit char
  | Cls "char list"
  | Seq regex regex
  | Alt regex regex
  | Star regex
  | Group nat regex

text \<open>\<open>r+\<close> and \<open>r?\<close>.\<close>

definition Plus :: "regex \<Rightarrow> regex" where
  "Plus r = Seq r (Star r)"

definition Opt :: "regex \<Rightarrow> regex" where
  "Opt r = Alt r Eps"

fun seqs :: "regex list \<Rightarrow> regex" where
  "seqs [] = Eps"
| "seqs [r] = r"
| "seqs (r # rs) = Seq r (seqs rs)"

text \<open>A literal word, character by character.\<close>

definition word :: "string \<Rightarrow> regex" where
  "word w = seqs (map Lit w)"

text \<open>
  One character against a literal or a class; with \<open>re.IGNORECASE\<close> (\<open>ic\<close>) letters are
  compared without regard to case.
\<close>

definition lit_matches :: "bool \<Rightarrow> char \<Rightarrow> char \<Rightarrow> bool" where
  "lit_matches ic c x = (if ic then lower_char x = lower_char c else x = c)"

definition cls_matches :: "bool \<Rightarrow> char list \<Rightarrow> char \<Rightarrow> bool" where
  "cls_matches ic cs x = (if ic then lower_char x \<in> set (map lower_char cs) else x \<in> set cs)"

type_synonym captures = "(nat \<times> string) list"

function matches :: "bool \<Rightarrow> regex \<Rightarrow> string \<Rightarrow> captures \<Rightarrow> (string \<times> captures) list" where
  "matches ic Eps s cs = [(s, cs)]"
| "matches ic (Lit c) s cs =
     (case s of [] \<Rightarrow> [] | x # t \<Rightarrow> if lit_matches ic c x then [(t, cs)] else [])"
| "matches ic (Cls k) s cs =
     (case s of [] \<Rightarrow> [] | x # t \<Rightarrow> if cls_matches ic k x then [(t, cs)] else [])"
| "matches ic (Seq a b) s cs =
     concat (map (\<lambda>p. matches ic b (fst p) (snd p)) (matches ic a s cs))"
| "matches ic (Alt a b) s cs = matches ic a s cs @ matches ic b s cs"
| "matches ic (Star a) s cs =
     concat (map (\<lambda>p. if length (fst p) < length s
                      then matches ic (Star a) (fst p) (snd p)
                      else [p])
                 (matches ic a s cs))
     @ [(s, cs)]"
| "matches ic (Group n a) s cs =
     map (\<lambda>p. (fst p, (n, take (length s - length (fst p)) s) # snd p)) (matches ic a s cs)"
  by pat_completeness auto
termination
  by (relation "measures [\<lambda>(ic, r, s, cs). size r, \<lambda>(ic, r, s, cs). length s]") auto

text \<open>The number of capturing groups of a pattern (groups are numbered from 1).\<close>

fun ngroups :: "regex \<Rightarrow> nat" where
  "ngroups Eps = 0"
| "ngroups (Lit c) = 0"
| "ngroups (Cls k) = 0"
| "ngroups (Seq a b) = max (ngroups a) (ngroups b)"
| "ngroups (Alt a b) = max (ngroups a) (ngroups b)"
| "ngroups (Star a) = ngroups a"
| "ngroups (Group n a) = max n (ngroups a)"

text \<open>
  \<open>re.search(pattern, text, flags)\<close>: the first way of matching at the leftmost position
  that has one. The result is what the code reads from the match object, \<open>match.groups()\<close>:
  for each group of the pattern the text it captured, or \<open>None\<close> for a group that took no
  part in the match.
\<close>

fun search_from :: "bool \<Rightarrow> regex \<Rightarrow> string \<Rightarrow> captures option" where
  "search_from ic r [] = (case matches ic r [] [] of [] \<Rightarrow> None | p # _ \<Rightarrow> Some (snd p))"
| "search_from ic r (x # t) =
     (case matches ic r (x # t) [] of [] \<Rightarrow> search_from ic r t | p # _ \<Rightarrow> Some (snd p))"

definition re_search :: "regex \<Rightarrow> string \<Rightarrow> bool \<Rightarrow> string option list option" where
  "re_search r text ic =
     (case search_from ic r text of
        None \<Rightarrow> None
      | Some cs \<Rightarrow> Some (map (map_of cs) [1 ..< Suc (ngroups r)]))"

section \<open>Exceptions\<close>

text \<open>
  The exceptions the code raises or lets through. \<open>PaymentProcessorError\<close> carries its
  message, which is what tells "amount not found" from "amount malformed".
\<close>

datatype exn =
    PaymentProcessorError string
  | StorageError
  | EmailConnectionError
  | IndexError
  | AttributeError
  | KeyError
  | UnicodeDecodeError
  | OSError
  | IllegalCharacterError

section \<open>Exact decimals\<close>

text \<open>
  A \<open>decimal.Decimal\<close> is a finite exact decimal number, an infinity or a NaN. Equality of
  finite decimals is equality of their values, so a finite decimal is modelled by its value.
\<close>

datatype decimal = Dec rat | DInf bool | DNaN

definition digit_val :: "char \<Rightarrow> nat" where
  "digit_val c = length (takeWhile (\<lambda>d. d \<noteq> c) digit_chars)"

definition digits_value :: "string \<Rightarrow> nat" where
  "digits_value ds = foldl (\<lambda>n c. 10 * n + digit_val c) 0 ds"

definition pow10 :: "int \<Rightarrow> rat" where
  "pow10 e = (if 0 \<le> e then 10 ^ nat e else 1 / 10 ^ nat (- e))"

definition split_sign :: "string \<Rightarrow> bool \<times> string" where
  "split_sign s =
     (case s of
        [] \<Rightarrow> (False, [])
      | c # r \<Rightarrow> if c = CHR ''-'' then (True, r) else if c = CHR ''+'' then (False, r) else (False, s))"

definition parse_exponent :: "string \<Rightarrow> int option" where
  "parse_exponent s =
     (let (neg, r) = split_sign s
      in if r \<noteq> [] \<and> list_all is_digit r
         then Some (if neg then - int (digits_value r) else int (digits_value r))
         else None)"

text \<open>
  \<open>Decimal(value)\<close> for a string: surrounding whitespace and underscores are dropped; then
  a sign, and either digits with an optional point and an optional exponent (at least one
  digit before the exponent), or \<open>Inf\<close>, \<open>Infinity\<close>, \<open>NaN\<close>, \<open>sNaN\<close> in any case.
  \<open>None\<close> is \<open>decimal.InvalidOperation\<close>.
\<close>

definition Decimal :: "string \<Rightarrow> decimal option" where
  "Decimal value =
     (let t = remove_char CHR ''_'' (strip value);
          (neg, u) = split_sign t;
          ip = takeWhile is_digit u;
          r1 = dropWhile is_digit u;
          (fp, r2) = (case r1 of
                        [] \<Rightarrow> ([], [])
                      | c # r \<Rightarrow> if c = CHR ''.''
                                 then (takeWhile is_digit r, dropWhile is_digit r)
                                 else ([], r1))
      in if ip = [] \<and> fp = [] then
           (let w = lower u
            in if w = ''inf'' \<or> w = ''infinity'' then Some (DInf neg)
               else if (startswith w ''nan'' \<and> list_all is_digit (drop 3 w))
                     \<or> (startswith w ''snan'' \<and> list_all is_digit (drop 4 w)) then Some DNaN
               else None)
         else
           (let q = of_nat (digits_value (ip @ fp)) / 10 ^ length fp;
                sq = (if neg then - q else q)
            in case r2 of
                 [] \<Rightarrow> Some (Dec sq)
               | c # r \<Rightarrow>
                   if c = CHR ''e'' \<or> c = CHR ''E''
                   then (case parse_exponent r of
                           None \<Rightarrow> None
                         | Some e \<Rightarrow> Some (Dec (sq * pow10 e)))
                   else None))"

section \<open>Payment models (\<open>models/payment.py\<close>)\<close>

datatype PaymentSource = ZELLE | VENMO | CASHAPP | PAYPAL

text \<open>\<open>source.value\<close>.\<close>

fun source_value :: "PaymentSource \<Rightarrow> string" where
  "source_value ZELLE = ''Zelle''"
| "source_value VENMO = ''Venmo''"
| "source_value CASHAPP = ''CashApp''"
| "source_value PAYPAL = ''PayPal''"

text \<open>
  The two \<open>frozenset\<close>s are lists here: the code only asks whether some member satisfies a
  test, and sorts the addresses before it walks through them.
\<close>

record PaymentPattern =
  from_emails :: "string list"
  subject_keywords :: "string list"
  amount_pattern :: regex
  name_pattern :: regex

definition matches_sender :: "PaymentPattern \<Rightarrow> string \<Rightarrow> bool" where
  "matches_sender p from_email = any (\<lambda>sender. contains (lower from_email) sender) (from_emails p)"

definition matches_subject :: "PaymentPattern \<Rightarrow> string \<Rightarrow> bool" where
  "matches_subject p subject = any (\<lambda>keyword. contains (lower subject) keyword) (subject_keywords p)"

section \<open>Payment processor (\<open>core/payment_processor.py\<close>)\<close>

definition letters :: regex where
  "letters = Cls ''ABCDEFGHIJKLMNOPQRSTUVWXYZabcdefghijklmnopqrstuvwxyz''"

definition spaces :: regex where
  "spaces = Plus (Cls whitespace)"

text \<open>\<open>\$([0-9,]+\.?[0-9]*)\<close>\<close>

definition amount_re :: regex where
  "amount_re =
     Seq (Lit CHR ''$'')
         (Group 1 (seqs [Plus (Cls ''0123456789,''), Opt (Lit CHR ''.''), Star (Cls ''0123456789'')]))"

text \<open>\<open>[A-Za-z]+\s+[A-Za-z]+(?:\s+[A-Za-z]+)?\<close>\<close>

definition full_name_re :: regex where
  "full_name_re = seqs [Plus letters, spaces, Plus letters, Opt (Seq spaces (Plus letters))]"

text \<open>
  \<open>(NAME)\s+sent\s+you|from\s+(NAME)\<close>, with \<open>paid\<close> for \<open>sent\<close> in the Venmo pattern.
\<close>

definition name_re :: "string \<Rightarrow> regex" where
  "name_re verb =
     Alt (seqs [Group 1 full_name_re, spaces, word verb, spaces, word ''you''])
         (seqs [word ''from'', spaces, Group 2 full_name_re])"

text \<open>\<open>_initialize_patterns\<close>: the dictionary, in insertion order.\<close>

definition patterns :: "(PaymentSource \<times> PaymentPattern) list" where
  "patterns =
     [(ZELLE, \<lparr>from_emails = [''noreply@zellepay.com'', ''alert@zellepay.com''],
               subject_keywords = [''sent you'', ''received'', ''payment''],
               amount_pattern = amount_re, name_pattern = name_re ''sent''\<rparr>),
      (VENMO, \<lparr>from_emails = [''venmo@venmo.com'', ''notifications@venmo.com''],
               subject_keywords = [''paid you'', ''charged you'', ''payment''],
               amount_pattern = amount_re, name_pattern = name_re ''paid''\<rparr>),
      (CASHAPP, \<lparr>from_emails = [''cash@square.com'', ''support@cash.app''],
                 subject_keywords = [''sent you'', ''received'', ''payment''],
                 amount_pattern = amount_re, name_pattern = name_re ''sent''\<rparr>),
      (PAYPAL, \<lparr>from_emails = [''service@paypal.com'', ''paypal@e.paypal.com''],
                subject_keywords = [''sent you'', ''received'', ''payment''],
                amount_pattern = amount_re, name_pattern = name_re ''sent''\<rparr>)]"

text \<open>\<open>self.patterns[source]\<close>; every source is a key of the dictionary.\<close>

definition pattern_of :: "PaymentSource \<Rightarrow> PaymentPattern" where
  "pattern_of source = the (map_of patterns source)"

text \<open>\<open>identify_payment_source\<close>: the loop over \<open>self.patterns.items()\<close>.\<close>

fun identify_in :: "(PaymentSource \<times> PaymentPattern) list \<Rightarrow> string \<Rightarrow> string \<Rightarrow> PaymentSource option" where
  "identify_in [] from_email subject = None"
| "identify_in ((source, pattern) # rest) from_email subject =
     (if matches_sender pattern from_email \<and> matches_subject pattern subject
      then Some source
      else identify_in rest from_email subject)"

definition identify_payment_source :: "string \<Rightarrow> string \<Rightarrow> PaymentSource option" where
  "identify_payment_source from_email subject = identify_in patterns from_email subject"

text \<open>\<open>match.group(n)\<close> for \<open>n \<ge> 1\<close>: \<open>IndexError\<close> when the pattern has no such group.\<close>

definition group :: "string option list \<Rightarrow> nat \<Rightarrow> exn + string option" where
  "group m n = (if 1 \<le> n \<and> n \<le> length m then Inr (m ! (n - 1)) else Inl IndexError)"

definition amount_not_found :: exn where
  "amount_not_found = PaymentProcessorError ''Could not extract payment amount from text''"

definition amount_malformed :: "string \<Rightarrow> exn" where
  "amount_malformed amount_str = PaymentProcessorError (''Invalid amount format: '' @ amount_str)"

text \<open>
  \<open>extract_amount\<close>. A group that took no part in the match is \<open>None\<close>, and
  \<open>None.replace\<close> raises \<open>AttributeError\<close>.
\<close>

definition extract_amount :: "string \<Rightarrow> regex \<Rightarrow> exn + decimal" where
  "extract_amount text pattern =
     (case re_search pattern text False of
        None \<Rightarrow> Inl amount_not_found
      | Some m \<Rightarrow>
          (case group m 1 of
             Inl e \<Rightarrow> Inl e
           | Inr None \<Rightarrow> Inl AttributeError
           | Inr (Some g) \<Rightarrow>
               (let amount_str = remove_char CHR '','' g
                in case Decimal amount_str of
                     Some d \<Rightarrow> Inr d
                   | None \<Rightarrow> Inl (amount_malformed amount_str))))"

text \<open>\<open>extract_client_name\<close>: the loop over \<open>match.groups()\<close>, then the fallback.\<close>

fun first_group :: "string option list \<Rightarrow> string" where
  "first_group [] = ''Unknown''"
| "first_group (None # gs) = first_group gs"
| "first_group (Some g # gs) = (if g \<noteq> [] \<and> strip g \<noteq> [] then strip g else first_group gs)"

definition extract_client_name :: "string \<Rightarrow> regex \<Rightarrow> string" where
  "extract_client_name text pattern =
     (case re_search pattern text True of
        Some m \<Rightarrow> first_group m
      | None \<Rightarrow> ''Unknown'')"

section \<open>Binary floating point\<close>

text \<open>
  The store compares and aggregates amounts as Python \<open>float\<close>s (IEEE 754 binary64). A
  finite float is modelled by its value, a rational number; \<open>float_of_rat\<close> rounds a
  rational to the nearest binary64 value, ties to even, with gradual underflow below
  \<open>2\<^sup>-\<^sup>1\<^sup>0\<^sup>2\<^sup>2\<close> and overflow to infinity, which is what \<open>float(d)\<close> does for a
  finite \<open>Decimal\<close>. Signed zeros are not told apart.
\<close>

datatype float64 = FFin rat | FInf bool | FNaN

definition pow2 :: "int \<Rightarrow> rat" where
  "pow2 e = (if 0 \<le> e then 2 ^ nat e else 1 / 2 ^ nat (- e))"

text \<open>For \<open>q > 0\<close>: the \<open>k\<close> with \<open>2\<^sup>k \<le> q < 2\<^sup>k\<^sup>+\<^sup>1\<close>.\<close>

definition floor_log2 :: "rat \<Rightarrow> int" where
  "floor_log2 q =
     (let (a, b) = quotient_of q;
          k = bitlen a - bitlen b
      in if pow2 k \<le> q then k else k - 1)"

definition round_half_even :: "rat \<Rightarrow> int" where
  "round_half_even x =
     (let f = \<lfloor>x\<rfloor>; d = x - of_int f
      in if d < 1 / 2 then f
         else if 1 / 2 < d then f + 1
         else if even f then f else f + 1)"

definition float_of_rat :: "rat \<Rightarrow> float64" where
  "float_of_rat q =
     (if q = 0 then FFin 0
      else
        (let a = \<bar>q\<bar>;
             e = max (floor_log2 a - 52) (- 1074);
             m = round_half_even (a / pow2 e);
             v = of_int m * pow2 e
         in if 2 ^ 1024 \<le> v then FInf (q < 0)
            else FFin (if q < 0 then - v else v)))"

text \<open>\<open>float(d)\<close> for a \<open>Decimal\<close>.\<close>

fun py_float :: "decimal \<Rightarrow> float64" where
  "py_float (Dec q) = float_of_rat q"
| "py_float (DInf neg) = FInf neg"
| "py_float DNaN = FNaN"

text \<open>\<open>x == y\<close> on floats: a NaN equals nothing.\<close>

definition float_eq :: "float64 \<Rightarrow> float64 \<Rightarrow> bool" where
  "float_eq x y = (x \<noteq> FNaN \<and> x = y)"

text \<open>Addition and division of floats: the exact result, rounded.\<close>

fun fadd :: "float64 \<Rightarrow> float64 \<Rightarrow> float64" where
  "fadd (FFin a) (FFin b) = float_of_rat (a + b)"
| "fadd FNaN y = FNaN"
| "fadd x FNaN = FNaN"
| "fadd (FInf s) (FInf t) = (if s = t then FInf s else FNaN)"
| "fadd (FInf s) (FFin b) = FInf s"
| "fadd (FFin a) (FInf t) = FInf t"

text \<open>Division by a positive count.\<close>

fun fdiv_nat :: "float64 \<Rightarrow> nat \<Rightarrow> float64" where
  "fdiv_nat (FFin a) n = float_of_rat (a / of_nat n)"
| "fdiv_nat x n = x"

fun fle :: "float64 \<Rightarrow> float64 \<Rightarrow> bool" where
  "fle (FFin a) (FFin b) = (a \<le> b)"
| "fle (FInf s) (FInf t) = (s \<or> \<not> t)"
| "fle (FInf s) (FFin b) = s"
| "fle (FFin a) (FInf t) = (\<not> t)"
| "fle FNaN y = False"
| "fle x FNaN = False"

section \<open>Payment records\<close>

text \<open>
  A \<open>datetime\<close> by its fields. \<open>strftime\<close> (of glibc) writes the year without padding
  and the other fields with two digits (years are below 10000, the other fields below 100).
\<close>

record datetime =
  year :: nat
  month :: nat
  day :: nat
  hour :: nat
  minute :: nat
  second :: nat

definition digit_char :: "nat \<Rightarrow> char" where
  "digit_char n = digit_chars ! (n mod 10)"

definition two_digits :: "nat \<Rightarrow> string" where
  "two_digits n = [digit_char (n div 10), digit_char n]"

definition four_digits :: "nat \<Rightarrow> string" where
  "four_digits n = two_digits (n div 100) @ two_digits (n mod 100)"

definition year_digits :: "nat \<Rightarrow> string" where
  "year_digits n =
     (if n < 10 then [digit_char n]
      else if n < 100 then two_digits n
      else if n < 1000 then digit_char (n div 100) # two_digits (n mod 100)
      else four_digits n)"

text \<open>\<open>strftime("%Y-%m-%d")\<close> and \<open>strftime("%Y-%m-%d %H:%M:%S")\<close>.\<close>

definition strftime_date :: "datetime \<Rightarrow> string" where
  "strftime_date d = year_digits (year d) @ ''-'' @ two_digits (month d) @ ''-'' @ two_digits (day d)"

definition strftime_datetime :: "datetime \<Rightarrow> string" where
  "strftime_datetime d =
     strftime_date d @ '' '' @ two_digits (hour d) @ '':'' @ two_digits (minute d)
       @ '':'' @ two_digits (second d)"

record PaymentRecord =
  date :: datetime
  amount :: decimal
  source :: PaymentSource
  client_name :: string
  email_subject :: string
  processed_at :: datetime

text \<open>The value of a spreadsheet cell: a text, a \<open>Decimal\<close> object or a number.\<close>

datatype cell = CStr string | CDec decimal | CNum float64

type_synonym row = "(string \<times> cell) list"

text \<open>\<open>to_dict\<close>: the row of a record, keyed by column title.\<close>

definition to_dict :: "PaymentRecord \<Rightarrow> row" where
  "to_dict r =
     [(''Date'', CStr (strftime_date (date r))),
      (''Amount'', CDec (amount r)),
      (''Source'', CStr (source_value (source r))),
      (''Client Name'', CStr (client_name r)),
      (''Email Subject'', CStr (email_subject r)),
      (''Processed Date'', CStr (strftime_datetime (processed_at r)))]"

section \<open>Excel storage (\<open>storage/excel_handler.py\<close>)\<close>

text \<open>
  A \<open>DataFrame\<close> is its column titles and its rows; a row gives a cell for some of the
  columns, and a column without a cell in a row holds NaN there.

  The file is the sheet it holds and whether it can be read and written at the moment
  (permissions, a lock, a damaged archive).
\<close>

record dataframe =
  columns :: "string list"
  rows :: "row list"

record excel_file =
  sheet :: dataframe
  readable :: bool
  writable :: bool

definition storage_columns :: "string list" where
  "storage_columns =
     [''Date'', ''Amount'', ''Source'', ''Client Name'', ''Email Subject'', ''Processed Date'']"

definition empty_frame :: dataframe where
  "empty_frame = \<lparr>columns = storage_columns, rows = []\<rparr>"

text \<open>\<open>pd.read_excel\<close> and \<open>_load_dataframe\<close>, which turns every failure into an empty frame.\<close>

definition read_excel :: "excel_file \<Rightarrow> exn + dataframe" where
  "read_excel f = (if readable f then Inr (sheet f) else Inl OSError)"

definition load_dataframe :: "excel_file \<Rightarrow> dataframe" where
  "load_dataframe f = (case read_excel f of Inr df \<Rightarrow> df | Inl e \<Rightarrow> empty_frame)"

subsection \<open>What a sheet stores\<close>

text \<open>
  A text cell is cut to 32767 characters and refused by the sheet (\<open>IllegalCharacterError\<close>)
  when it then holds a control character other than tab, line feed and carriage return.
\<close>

definition illegal_chars :: "char list" where
  "illegal_chars =
     [CHR 0x00, CHR 0x01, CHR 0x02, CHR 0x03, CHR 0x04, CHR 0x05, CHR 0x06, CHR 0x07, CHR 0x08,
      CHR 0x0B, CHR 0x0C,
      CHR 0x0E, CHR 0x0F, CHR 0x10, CHR 0x11, CHR 0x12, CHR 0x13, CHR 0x14, CHR 0x15, CHR 0x16,
      CHR 0x17, CHR 0x18, CHR 0x19, CHR 0x1A, CHR 0x1B, CHR 0x1C, CHR 0x1D, CHR 0x1E, CHR 0x1F]"

definition legal_text :: "string \<Rightarrow> bool" where
  "legal_text s = list_all (\<lambda>c. c \<notin> set illegal_chars) (take 32767 s)"

text \<open>
  Reading the file parses XML, which turns the line ends \<open>CR LF\<close> and \<open>CR\<close> into \<open>LF\<close>; an
  empty text is read as a missing cell.
\<close>

fun normalise_newlines :: "string \<Rightarrow> string" where
  "normalise_newlines [] = []"
| "normalise_newlines [c] = [if c = CHR 0x0D then CHR 0x0A else c]"
| "normalise_newlines (c # d # s) =
     (if c = CHR 0x0D \<and> d = CHR 0x0A then CHR 0x0A # normalise_newlines s
      else if c = CHR 0x0D then CHR 0x0A # normalise_newlines (d # s)
      else c # normalise_newlines (d # s))"

definition excel_text :: "string \<Rightarrow> cell option" where
  "excel_text s =
     (let t = normalise_newlines (take 32767 s)
      in if t = [] then None else Some (CStr t))"

text \<open>
  What is read back for a cell that was written: a text as above, a \<open>Decimal\<close> as the
  float nearest to it (a spreadsheet stores numbers in binary64), a NaN as a missing cell.
\<close>

fun excel_cell :: "cell \<Rightarrow> cell option" where
  "excel_cell (CStr s) = excel_text s"
| "excel_cell (CDec d) = (if py_float d = FNaN then None else Some (CNum (py_float d)))"
| "excel_cell (CNum x) = (if x = FNaN then None else Some (CNum x))"

text \<open>A row as it is read back when its cells under the given titles were written.\<close>

definition excel_row :: "string list \<Rightarrow> row \<Rightarrow> row" where
  "excel_row titles r =
     List.map_filter
       (\<lambda>c. case map_of r c of None \<Rightarrow> None | Some v \<Rightarrow> map_option (Pair c) (excel_cell v))
       titles"

text \<open>
  \<open>to_excel\<close> assigns the cells column by column, each column from the top, and raises at
  the first text that the sheet refuses: \<open>accepted_columns\<close> columns have then been written
  in full, and \<open>accepted_rows\<close> cells of the next one.
\<close>

definition cell_accepted :: "cell option \<Rightarrow> bool" where
  "cell_accepted x = (case x of Some (CStr s) \<Rightarrow> legal_text s | _ \<Rightarrow> True)"

definition column_cells :: "dataframe \<Rightarrow> string \<Rightarrow> cell option list" where
  "column_cells df title = map (\<lambda>r. map_of r title) (rows df)"

definition accepted_columns :: "dataframe \<Rightarrow> nat" where
  "accepted_columns df =
     length (takeWhile (\<lambda>c. list_all cell_accepted (column_cells df c)) (columns df))"

definition to_excel_raises :: "dataframe \<Rightarrow> bool" where
  "to_excel_raises df = (accepted_columns df < length (columns df))"

definition accepted_rows :: "dataframe \<Rightarrow> nat" where
  "accepted_rows df =
     length (takeWhile cell_accepted (column_cells df (columns df ! accepted_columns df)))"

text \<open>
  The sheet that the file holds after \<open>to_excel\<close>, as it is read back. When \<open>to_excel\<close>
  raised, the writer is still closed and saves what was assigned so far: each row has its
  cells of the columns written in full, the rows above the refused cell also that of the
  refused column, and a row that no cell was assigned to is not there.
\<close>

definition written_sheet :: "dataframe \<Rightarrow> dataframe" where
  "written_sheet df =
     (if to_excel_raises df then
        (let j = accepted_columns df;
             i = accepted_rows df;
             n = (if j = 0 then i else length (rows df))
         in \<lparr>columns = columns df,
             rows = map (\<lambda>kr. excel_row (take (if fst kr < i then Suc j else j) (columns df)) (snd kr))
                        (zip [0 ..< n] (take n (rows df)))\<rparr>)
      else \<lparr>columns = columns df,
            rows = (if columns df = [] then [] else map (excel_row (columns df)) (rows df))\<rparr>)"

text \<open>
  \<open>_save_dataframe\<close>: raises when the file cannot be written or a text is refused. The file
  after the call, whether it raised or not, is \<open>file_written\<close>: untouched when it cannot be
  written, else replaced by what was assigned (and then a file that can be read).
\<close>

definition file_written :: "excel_file \<Rightarrow> dataframe \<Rightarrow> excel_file" where
  "file_written f df =
     (if writable f then f\<lparr>sheet := written_sheet df, readable := True\<rparr> else f)"

definition save_dataframe :: "excel_file \<Rightarrow> dataframe \<Rightarrow> exn + excel_file" where
  "save_dataframe f df =
     (if \<not> writable f then Inl OSError
      else if to_excel_raises df then Inl IllegalCharacterError
      else Inr (file_written f df))"

text \<open>\<open>pd.concat([df, new_row], ignore_index=True)\<close>\<close>

definition concat_frames :: "dataframe \<Rightarrow> dataframe \<Rightarrow> dataframe" where
  "concat_frames df new =
     \<lparr>columns = columns df @ filter (\<lambda>c. c \<notin> set (columns df)) (columns new),
      rows = rows df @ rows new\<rparr>"

definition frame_of_row :: "row \<Rightarrow> dataframe" where
  "frame_of_row r = \<lparr>columns = map fst r, rows = [r]\<rparr>"

text \<open>\<open>df[title]\<close>: the cells of a column, \<open>KeyError\<close> for a title the frame does not have.\<close>

definition column :: "dataframe \<Rightarrow> string \<Rightarrow> exn + cell option list" where
  "column df title =
     (if title \<in> set (columns df) then Inr (map (\<lambda>r. map_of r title) (rows df))
      else Inl KeyError)"

text \<open>
  \<open>x == v\<close> for a cell \<open>x\<close> of a column: NaN equals nothing, a text equals the same text,
  numbers are compared by value (a \<open>Decimal\<close> against a float exactly).
\<close>

fun cell_eq :: "cell option \<Rightarrow> cell \<Rightarrow> bool" where
  "cell_eq (Some (CStr a)) (CStr b) = (a = b)"
| "cell_eq (Some (CNum x)) (CNum y) = float_eq x y"
| "cell_eq (Some (CDec (Dec q))) (CNum (FFin v)) = (q = v)"
| "cell_eq (Some (CDec (DInf s))) (CNum (FInf t)) = (s = t)"
| "cell_eq x v = False"

text \<open>\<open>df[title] == v\<close> and \<open>m1 & m2\<close>.\<close>

definition series_eq :: "dataframe \<Rightarrow> string \<Rightarrow> cell \<Rightarrow> exn + bool list" where
  "series_eq df title v =
     (case column df title of Inl e \<Rightarrow> Inl e | Inr cells \<Rightarrow> Inr (map (\<lambda>x. cell_eq x v) cells))"

definition mask_and :: "bool list \<Rightarrow> bool list \<Rightarrow> bool list" where
  "mask_and m1 m2 = map (\<lambda>p. fst p \<and> snd p) (zip m1 m2)"

text \<open>
  \<open>record_exists\<close>: the four comparisons in the order of the source; whatever is raised
  on the way is caught and answered with \<open>False\<close>.
\<close>

definition key_mask :: "dataframe \<Rightarrow> PaymentRecord \<Rightarrow> exn + bool list" where
  "key_mask df r =
     (case series_eq df ''Date'' (CStr (strftime_date (date r))) of
        Inl e \<Rightarrow> Inl e
      | Inr m1 \<Rightarrow>
     (case series_eq df ''Amount'' (CNum (py_float (amount r))) of
        Inl e \<Rightarrow> Inl e
      | Inr m2 \<Rightarrow>
     (case series_eq df ''Source'' (CStr (source_value (source r))) of
        Inl e \<Rightarrow> Inl e
      | Inr m3 \<Rightarrow>
     (case series_eq df ''Client Name'' (CStr (client_name r)) of
        Inl e \<Rightarrow> Inl e
      | Inr m4 \<Rightarrow> Inr (mask_and (mask_and (mask_and m1 m2) m3) m4)))))"

definition record_exists :: "excel_file \<Rightarrow> PaymentRecord \<Rightarrow> bool" where
  "record_exists f r =
     (case key_mask (load_dataframe f) r of
        Inl e \<Rightarrow> False
      | Inr m \<Rightarrow> any (\<lambda>b. b) m)"

text \<open>
  \<open>save_record\<close>: returns without writing when the record exists; any exception becomes
  \<open>StorageError\<close>. An exception carries no state: the file that a call leaves behind,
  whether it returned or raised, is \<open>file_after_save\<close>.
\<close>

definition save_record :: "excel_file \<Rightarrow> PaymentRecord \<Rightarrow> exn + excel_file" where
  "save_record f r =
     (if record_exists f r then Inr f
      else
        (let df = load_dataframe f;
             new_row = frame_of_row (to_dict r);
             df' = concat_frames df new_row
         in case save_dataframe f df' of
              Inl e \<Rightarrow> Inl StorageError
            | Inr f' \<Rightarrow> Inr f'))"

definition file_after_save :: "excel_file \<Rightarrow> PaymentRecord \<Rightarrow> excel_file" where
  "file_after_save f r =
     (if record_exists f r then f
      else file_written f (concat_frames (load_dataframe f) (frame_of_row (to_dict r))))"

subsection \<open>Summary statistics\<close>

text \<open>
  The values of the statistics dictionary: a count, a float, the dictionary of
  \<open>value_counts\<close> (a finite map from cell values to counts) or the text of an error.
\<close>

datatype stat = SInt nat | SFloat float64 | SCounts "cell \<rightharpoonup> nat" | SStr string

text \<open>
  The cells of a numeric column as floats, NaN for a missing cell; a column that holds a
  text is not numeric, and aggregating it raises.
\<close>

fun numeric_cell :: "cell option \<Rightarrow> exn + float64" where
  "numeric_cell None = Inr FNaN"
| "numeric_cell (Some (CNum x)) = Inr x"
| "numeric_cell (Some (CDec d)) = Inr (py_float d)"
| "numeric_cell (Some (CStr s)) = Inl AttributeError"

fun numeric_cells :: "cell option list \<Rightarrow> exn + float64 list" where
  "numeric_cells [] = Inr []"
| "numeric_cells (c # cs) =
     (case numeric_cell c of
        Inl e \<Rightarrow> Inl e
      | Inr x \<Rightarrow> (case numeric_cells cs of Inl e \<Rightarrow> Inl e | Inr xs \<Rightarrow> Inr (x # xs)))"

text \<open>
  \<open>sum\<close>, \<open>mean\<close>, \<open>max\<close> and \<open>min\<close> of a float column skip NaN. The sum adds from left to
  right, rounding after each addition. A column in which every cell is a whole number within
  64 bits is a column of 64-bit integers: its sum is exact but wraps around.
\<close>

definition whole :: "float64 \<Rightarrow> bool" where
  "whole x =
     (case x of
        FFin q \<Rightarrow> q = of_int \<lfloor>q\<rfloor> \<and> - (2 ^ 63) \<le> q \<and> q < 2 ^ 63
      | _ \<Rightarrow> False)"

definition int_of_float :: "float64 \<Rightarrow> int" where
  "int_of_float x = (case x of FFin q \<Rightarrow> \<lfloor>q\<rfloor> | _ \<Rightarrow> 0)"

definition wrap_int64 :: "int \<Rightarrow> int" where
  "wrap_int64 n = (n + 2 ^ 63) mod 2 ^ 64 - 2 ^ 63"

definition not_nan :: "float64 list \<Rightarrow> float64 list" where
  "not_nan xs = filter (\<lambda>x. x \<noteq> FNaN) xs"

definition float_sum :: "float64 list \<Rightarrow> float64" where
  "float_sum xs = foldl fadd (FFin 0) (not_nan xs)"

definition series_sum :: "float64 list \<Rightarrow> float64" where
  "series_sum xs =
     (if xs \<noteq> [] \<and> list_all whole xs
      then float_of_rat (of_int (wrap_int64 (sum_list (map int_of_float xs))))
      else float_sum xs)"

definition series_mean :: "float64 list \<Rightarrow> float64" where
  "series_mean xs =
     (if not_nan xs = [] then FNaN else fdiv_nat (float_sum xs) (length (not_nan xs)))"

definition series_max :: "float64 list \<Rightarrow> float64" where
  "series_max xs =
     (case not_nan xs of [] \<Rightarrow> FNaN | y # ys \<Rightarrow> foldl (\<lambda>a b. if fle a b then b else a) y ys)"

definition series_min :: "float64 list \<Rightarrow> float64" where
  "series_min xs =
     (case not_nan xs of [] \<Rightarrow> FNaN | y # ys \<Rightarrow> foldl (\<lambda>a b. if fle b a then b else a) y ys)"

text \<open>\<open>nunique\<close> and \<open>value_counts\<close> leave missing cells out.\<close>

definition present :: "cell option list \<Rightarrow> cell list" where
  "present cs = concat (map (\<lambda>c. case c of None \<Rightarrow> [] | Some v \<Rightarrow> [v]) cs)"

definition nunique :: "cell option list \<Rightarrow> nat" where
  "nunique cs = length (remdups (present cs))"

definition value_counts :: "cell option list \<Rightarrow> cell \<rightharpoonup> nat" where
  "value_counts cs =
     (\<lambda>v. if v \<in> set (present cs) then Some (count_list (present cs) v) else None)"

text \<open>\<open>df.empty\<close>\<close>

definition frame_empty :: "dataframe \<Rightarrow> bool" where
  "frame_empty df = (columns df = [] \<or> rows df = [])"

definition error_stats :: "exn \<Rightarrow> (string \<times> stat) list" where
  "error_stats e = [(''error'', SStr ''error'')]"

text \<open>
  \<open>get_summary_stats\<close>: the dictionary as the list of its items. An empty frame gets the two
  items of the early return; an exception gets the single item \<open>error\<close> (the text of the
  exception is not modelled).
\<close>

definition get_summary_stats :: "excel_file \<Rightarrow> (string \<times> stat) list" where
  "get_summary_stats f =
     (let df = load_dataframe f
      in if frame_empty df then [(''total_records'', SInt 0), (''total_amount'', SFloat (FFin 0))]
         else
           (case column df ''Amount'' of
              Inl e \<Rightarrow> error_stats e
            | Inr amount_cells \<Rightarrow>
           (case numeric_cells amount_cells of
              Inl e \<Rightarrow> error_stats e
            | Inr amounts \<Rightarrow>
           (case column df ''Client Name'' of
              Inl e \<Rightarrow> error_stats e
            | Inr clients \<Rightarrow>
           (case column df ''Source'' of
              Inl e \<Rightarrow> error_stats e
            | Inr sources \<Rightarrow>
                [(''total_records'', SInt (length (rows df))),
                 (''total_amount'', SFloat (series_sum amounts)),
                 (''average_amount'', SFloat (series_mean amounts)),
                 (''max_amount'', SFloat (series_max amounts)),
                 (''min_amount'', SFloat (series_min amounts)),
                 (''unique_clients'', SInt (nunique clients)),
                 (''by_source'', SCounts (value_counts sources))])))))"

section \<open>The mail collaborator (\<open>core/email_client.py\<close>)\<close>

text \<open>
  A fetched message, as far as the pipeline reads it: the \<open>From\<close> and \<open>Date\<close> headers
  (the empty string when absent) and what \<open>decode_subject\<close> and \<open>extract_body\<close> make of
  it. Both decode bytes and raise when the bytes are not valid in the charset, which is the
  \<open>Inl\<close> here.
\<close>

record email_message =
  header_from :: string
  header_date :: string
  decoded_subject :: "exn + string"
  decoded_body :: "exn + string"

text \<open>
  What the surroundings answer during one run: the mailbox (\<open>search_emails\<close> and
  \<open>fetch_email\<close>, which raise \<open>EmailConnectionError\<close> when the session cannot be set up;
  message identifiers are their decoded text), the library's date parser (\<open>None\<close> when it
  raises \<open>ValueError\<close> or \<open>TypeError\<close>) and the clock.
\<close>

record environment =
  search_emails :: "string \<Rightarrow> exn + string list"
  fetch_email :: "string \<Rightarrow> exn + email_message option"
  parsedate_to_datetime :: "string \<Rightarrow> datetime option"
  now :: datetime

text \<open>\<open>parse_email_date\<close>: the current time when the header does not parse.\<close>

definition parse_email_date :: "environment \<Rightarrow> string \<Rightarrow> datetime" where
  "parse_email_date env date_header =
     (case parsedate_to_datetime env date_header of
        Some d \<Rightarrow> d
      | None \<Rightarrow> now env)"

text \<open>
  \<open>process_email\<close>: \<open>None\<close> for a message of no provider and for one whose extraction
  raises \<open>PaymentProcessorError\<close>; any other exception goes through to the caller.
\<close>

definition process_email ::
  "environment \<Rightarrow> email_message \<Rightarrow> string \<Rightarrow> string \<Rightarrow> exn + PaymentRecord option" where
  "process_email env email_message body subject =
     (let from_email = header_from email_message
      in case identify_payment_source from_email subject of
           None \<Rightarrow> Inr None
         | Some src \<Rightarrow>
             (let pattern = pattern_of src;
                  combined_text = body @ '' '' @ subject
              in case extract_amount combined_text (amount_pattern pattern) of
                   Inl e \<Rightarrow> (case e of PaymentProcessorError msg \<Rightarrow> Inr None | _ \<Rightarrow> Inl e)
                 | Inr amt \<Rightarrow>
                     (let name = extract_client_name combined_text (name_pattern pattern);
                          date_header = header_date email_message;
                          payment_date = parse_email_date env date_header
                      in Inr (Some \<lparr>date = payment_date, amount = amt, source = src,
                                     client_name = name, email_subject = subject,
                                     processed_at = now env\<rparr>))))"

text \<open>\<open>get_supported_senders\<close>: every address of every provider, sorted.\<close>

definition get_supported_senders :: "string list" where
  "get_supported_senders = sort (concat (map (\<lambda>p. from_emails (snd p)) patterns))"

section \<open>The tracker (\<open>core/tracker.py\<close>)\<close>

text \<open>The state of a tracker: the identifiers handled in this run, and the store.\<close>

record tracker =
  processed_emails :: "string set"
  storage_handler :: excel_file

text \<open>
  The body of the inner loop of \<open>process_new_emails\<close> for one identifier, on the tracker
  and the running count \<open>records_processed\<close>. \<open>Inl\<close> is an exception that leaves the loop.
\<close>

definition process_one ::
  "environment \<Rightarrow> string \<Rightarrow> tracker \<times> nat \<Rightarrow> exn + tracker \<times> nat" where
  "process_one env email_id st =
     (let (t, records_processed) = st
      in if email_id \<in> processed_emails t then Inr st
         else
           (case fetch_email env email_id of
              Inl e \<Rightarrow> Inl e
            | Inr None \<Rightarrow> Inr st
            | Inr (Some email_message) \<Rightarrow>
           (case decoded_subject email_message of
              Inl e \<Rightarrow> Inl e
            | Inr subject \<Rightarrow>
           (case decoded_body email_message of
              Inl e \<Rightarrow> Inl e
            | Inr body \<Rightarrow>
           (case process_email env email_message body subject of
              Inl e \<Rightarrow> Inl e
            | Inr payment_record \<Rightarrow>
                (let (f, n) =
                       (case payment_record of
                          None \<Rightarrow> (storage_handler t, records_processed)
                        | Some r \<Rightarrow>
                            (case save_record (storage_handler t) r of
                               Inr f' \<Rightarrow> (f', records_processed + 1)
                             | Inl e \<Rightarrow> (file_after_save (storage_handler t) r,
                                         records_processed)))
                 in Inr (\<lparr>processed_emails = insert email_id (processed_emails t),
                           storage_handler = f\<rparr>, n)))))))"

text \<open>
  The inner loop: the exception that ended it, if any, and the state reached. An iteration
  that raises has not touched the store or the seen set (a failed save does not raise here).
\<close>

fun process_ids ::
  "environment \<Rightarrow> string list \<Rightarrow> tracker \<times> nat \<Rightarrow> exn option \<times> tracker \<times> nat" where
  "process_ids env [] st = (None, st)"
| "process_ids env (email_id # email_ids) st =
     (case process_one env email_id st of
        Inl e \<Rightarrow> (Some e, st)
      | Inr st' \<Rightarrow> process_ids env email_ids st')"

text \<open>
  One turn of the outer loop: the \<open>try\<close> around the search and the inner loop. Both
  \<open>except\<close> clauses log and go on to the next sender.
\<close>

definition process_sender :: "environment \<Rightarrow> string \<Rightarrow> tracker \<times> nat \<Rightarrow> tracker \<times> nat" where
  "process_sender env sender st =
     (case search_emails env sender of
        Inl e \<Rightarrow> st
      | Inr email_ids \<Rightarrow> snd (process_ids env email_ids st))"

fun process_senders :: "environment \<Rightarrow> string list \<Rightarrow> tracker \<times> nat \<Rightarrow> tracker \<times> nat" where
  "process_senders env [] st = st"
| "process_senders env (sender # senders) st =
     process_senders env senders (process_sender env sender st)"

text \<open>\<open>process_new_emails\<close>: the count it returns and the tracker it leaves.\<close>

definition process_new_emails :: "environment \<Rightarrow> tracker \<Rightarrow> nat \<times> tracker" where
  "process_new_emails env t =
     (let (t', records_processed) = process_senders env get_supported_senders (t, 0)
      in (records_processed, t'))"

section \<open>The conditions of the specification\<close>

text \<open>
  The classifier's condition in the words of the specification: some sender address of the
  provider occurs in the lower-cased \<open>From\<close> field, and some keyword of the provider occurs
  in the lower-cased subject.
\<close>

definition provider_matches :: "PaymentPattern \<Rightarrow> string \<Rightarrow> string \<Rightarrow> bool" where
  "provider_matches p from_email subject =
     ((\<exists>a \<in> set (from_emails p). \<exists>u v. lower from_email = u @ a @ v) \<and>
      (\<exists>k \<in> set (subject_keywords p). \<exists>u v. lower subject = u @ k @ v))"

text \<open>
  The amount in the words of the specification. The providers' amount pattern finds the first
  dollar sign that a digit or a comma follows; the token after it is the longest run of
  digits and commas, a point if one follows, and the digits after that. The token denotes a
  number when it has a digit: its digits before the point, plus its digits after the point
  as a decimal fraction (commas are thousands separators and do not count).
\<close>

definition amount_token :: "string \<Rightarrow> string" where
  "amount_token s =
     (let a = takeWhile (\<lambda>c. c \<in> set ''0123456789,'') s;
          r = dropWhile (\<lambda>c. c \<in> set ''0123456789,'') s
      in case r of
           [] \<Rightarrow> a
         | c # t \<Rightarrow> if c = CHR ''.'' then a @ [c] @ takeWhile (\<lambda>c. c \<in> set ''0123456789'') t else a)"

fun find_amount :: "string \<Rightarrow> string option" where
  "find_amount [] = None"
| "find_amount [c] = None"
| "find_amount (c # d # s) =
     (if c = CHR ''$'' \<and> d \<in> set ''0123456789,'' then Some (amount_token (d # s))
      else find_amount (d # s))"

fun nat_of_digits :: "string \<Rightarrow> nat" where
  "nat_of_digits [] = 0"
| "nat_of_digits (c # s) = digit_val c * 10 ^ length s + nat_of_digits s"

definition token_value :: "string \<Rightarrow> rat option" where
  "token_value g =
     (let ip = filter is_digit (takeWhile (\<lambda>c. c \<noteq> CHR ''.'') g);
          fp = filter is_digit (dropWhile (\<lambda>c. c \<noteq> CHR ''.'') g)
      in if ip = [] \<and> fp = [] then None
         else Some (of_nat (nat_of_digits ip) + of_nat (nat_of_digits fp) / 10 ^ length fp))"

text \<open>
  Trimming in the words of the specification: \<open>t\<close> is \<open>g\<close> without the whitespace at its two
  ends. A group cannot give a name when it took no part in the match or holds nothing but
  whitespace.
\<close>

definition trimmed :: "string \<Rightarrow> string \<Rightarrow> bool" where
  "trimmed g t =
     (\<exists>pre post. g = pre @ t @ post \<and> set pre \<subseteq> set whitespace \<and> set post \<subseteq> set whitespace \<and>
        (t = [] \<or> (hd t \<notin> set whitespace \<and> last t \<notin> set whitespace)))"

definition blank :: "string option \<Rightarrow> bool" where
  "blank g = (case g of None \<Rightarrow> True | Some s \<Rightarrow> set s \<subseteq> set whitespace)"

text \<open>
  The deduplication key as the code compares it: a row of the sheet matches a record when
  its four key cells equal the record's date (as \<open>%Y-%m-%d\<close>), amount (as a float), provider
  and payer name; two records have the same key when a stored row of one matches the other.
\<close>

definition key_columns :: "string list" where
  "key_columns = [''Date'', ''Amount'', ''Source'', ''Client Name'']"

definition row_matches :: "PaymentRecord \<Rightarrow> row \<Rightarrow> bool" where
  "row_matches r row =
     (cell_eq (map_of row ''Date'') (CStr (strftime_date (date r))) \<and>
      cell_eq (map_of row ''Amount'') (CNum (py_float (amount r))) \<and>
      cell_eq (map_of row ''Source'') (CStr (source_value (source r))) \<and>
      cell_eq (map_of row ''Client Name'') (CStr (client_name r)))"

definition same_key :: "PaymentRecord \<Rightarrow> PaymentRecord \<Rightarrow> bool" where
  "same_key r r' =
     (strftime_date (date r) = strftime_date (date r') \<and>
      float_eq (py_float (amount r)) (py_float (amount r')) \<and>
      source r = source r' \<and>
      client_name r = client_name r')"

text \<open>
  A store in working order: the file can be read and written, and its sheet is one that
  was written by the handler and read back: it has the six columns, and every row is as a
  sheet returns it (numbers are floats, texts have no carriage return) and holds no text that
  the sheet would refuse when the row is written again.
\<close>

definition clean_row :: "string list \<Rightarrow> row \<Rightarrow> bool" where
  "clean_row titles r =
     (excel_row titles r = r \<and> list_all (\<lambda>kv. cell_accepted (Some (snd kv))) r)"

definition stored_frame :: "dataframe \<Rightarrow> bool" where
  "stored_frame df = list_all (clean_row (columns df)) (rows df)"

definition working :: "excel_file \<Rightarrow> bool" where
  "working f =
     (readable f \<and> writable f \<and> columns (sheet f) = storage_columns \<and> stored_frame (sheet f))"

text \<open>
  A text that a sheet stores and returns unchanged: not empty, at most 32767 characters, no
  carriage return and no character that the sheet refuses. A record can be stored when its
  payer name is such a text and its subject is not refused.
\<close>

definition storable_text :: "string \<Rightarrow> bool" where
  "storable_text s =
     (s \<noteq> [] \<and> length s \<le> 32767 \<and>
      list_all (\<lambda>c. c \<notin> set illegal_chars \<and> c \<noteq> CHR 0x0D) s)"

definition storable_record :: "PaymentRecord \<Rightarrow> bool" where
  "storable_record r = (storable_text (client_name r) \<and> legal_text (email_subject r))"

section \<open>Example data\<close>

text \<open>
  The scenario of the specification: a Zelle notification for 75.00 from John Smith, its
  variants without a \<open>Date\<close> header and with a body that does not decode, and a mailbox
  that holds given messages under given identifiers.
\<close>

definition jan5 :: datetime where
  "jan5 = \<lparr>year = 2024, month = 1, day = 5, hour = 10, minute = 0, second = 0\<rparr>"

definition feb1 :: datetime where
  "feb1 = \<lparr>year = 2024, month = 2, day = 1, hour = 23, minute = 50, second = 0\<rparr>"

definition feb2 :: datetime where
  "feb2 = \<lparr>year = 2024, month = 2, day = 2, hour = 0, minute = 10, second = 0\<rparr>"

definition zelle_message :: email_message where
  "zelle_message =
     \<lparr>header_from = ''alert@zellepay.com'',
      header_date = ''Fri, 05 Jan 2024 10:00:00 +0000'',
      decoded_subject = Inr ''You received a payment'',
      decoded_body = Inr ''John Smith sent you $75.00''\<rparr>"

definition undated_message :: email_message where
  "undated_message = zelle_message\<lparr>header_date := []\<rparr>"

definition undecodable_message :: email_message where
  "undecodable_message = zelle_message\<lparr>decoded_body := Inl UnicodeDecodeError\<rparr>"

definition example_parsedate :: "string \<Rightarrow> datetime option" where
  "example_parsedate h = (if h = ''Fri, 05 Jan 2024 10:00:00 +0000'' then Some jan5 else None)"

text \<open>
  A mailbox: the search for a sender finds the identifiers of the messages whose \<open>From\<close>
  header is that address.
\<close>

definition mailbox :: "(string \<times> email_message) list \<Rightarrow> datetime \<Rightarrow> environment" where
  "mailbox msgs clock =
     \<lparr>search_emails = (\<lambda>sender. Inr (map fst (filter (\<lambda>im. header_from (snd im) = sender) msgs))),
      fetch_email = (\<lambda>email_id. Inr (map_of msgs email_id)),
      parsedate_to_datetime = example_parsedate,
      now = clock\<rparr>"

definition zelle_record :: "datetime \<Rightarrow> datetime \<Rightarrow> PaymentRecord" where
  "zelle_record d clock =
     \<lparr>date = d, amount = Dec 75, source = ZELLE, client_name = ''John Smith'',
      email_subject = ''You received a payment'', processed_at = clock\<rparr>"

definition new_file :: excel_file where
  "new_file = \<lparr>sheet = empty_frame, readable = True, writable = True\<rparr>"

definition new_tracker :: "excel_file \<Rightarrow> tracker" where
  "new_tracker f = \<lparr>processed_emails = {}, storage_handler = f\<rparr>"

text \<open>The characters a pattern can consume when it is matched case-sensitively.\<close>

fun alphabet :: "regex \<Rightarrow> char set" where
  "alphabet Eps = {}"
| "alphabet (Lit c) = {c}"
| "alphabet (Cls k) = set k"
| "alphabet (Seq a b) = alphabet a \<union> alphabet b"
| "alphabet (Alt a b) = alphabet a \<union> alphabet b"
| "alphabet (Star a) = alphabet a"
| "alphabet (Group n a) = alphabet a"

text \<open>
  The candidate record that the pipeline derives from the message with a given identifier,
  if it derives one: the message is fetched, its subject and body decode, and
  \<open>process_email\<close> returns a record. The message is dated when its \<open>Date\<close> header parses.
\<close>

definition candidate :: "environment \<Rightarrow> string \<Rightarrow> PaymentRecord option" where
  "candidate env email_id =
     (case fetch_email env email_id of
        Inr (Some m) \<Rightarrow>
          (case decoded_subject m of
             Inr subject \<Rightarrow>
               (case decoded_body m of
                  Inr body \<Rightarrow>
                    (case process_email env m body subject of
                       Inr (Some r) \<Rightarrow> Some r
                     | _ \<Rightarrow> None)
                | _ \<Rightarrow> None)
           | _ \<Rightarrow> None)
      | _ \<Rightarrow> None)"

definition dated :: "environment \<Rightarrow> string \<Rightarrow> bool" where
  "dated env email_id =
     (case fetch_email env email_id of
        Inr (Some m) \<Rightarrow> parsedate_to_datetime env (header_date m) \<noteq> None
      | _ \<Rightarrow> False)"

text \<open>
  A pattern whose groups can begin and end with whitespace, \<open>x( *)([\xa0a-z ]+)\<close>, and a
  pattern that lets any decimal literal through, \<open>\$([-+0-9.eE_a-zA-Z \xa0]+)\<close>.
\<close>

definition edge_name_re :: regex where
  "edge_name_re =
     seqs [Lit CHR ''x'', Group 1 (Star (Cls '' '')),
           Group 2 (Plus (Cls (CHR 0xA0 # ''abcdefghijklmnopqrstuvwxyz '')))]"

definition literal_re :: regex where
  "literal_re =
     Seq (Lit CHR ''$'')
         (Group 1 (Plus (Cls (CHR 0xA0 #
            ''-+0123456789.eE_abcdefghijklmnopqrstuvwxyzABCDEFGHIJKLMNOPQRSTUVWXYZ ''))))"

section \<open>Verified properties\<close>

subsection \<open>Message classifier\<close>

lemma startswith_iff: "startswith s sub \<longleftrightarrow> (\<exists>v. s = sub @ v)"
  by (induction s sub rule: startswith.induct) auto

lemma contains_iff: "contains s sub \<longleftrightarrow> (\<exists>u v. s = u @ sub @ v)"
proof (induction s)
  case Nil
  then show ?case by simp
next
  case (Cons x xs)
  show ?case
  proof
    assume "contains (x # xs) sub"
    then consider "startswith (x # xs) sub" | "contains xs sub" by auto
    then show "\<exists>u v. x # xs = u @ sub @ v"
    proof cases
      case 1
      then obtain v where "x # xs = sub @ v" by (auto simp: startswith_iff)
      then have "x # xs = [] @ sub @ v" by simp
      then show ?thesis by blast
    next
      case 2
      with Cons.IH obtain u v where "xs = u @ sub @ v" by blast
      then have "x # xs = (x # u) @ sub @ v" by simp
      then show ?thesis by blast
    qed
  next
    assume "\<exists>u v. x # xs = u @ sub @ v"
    then obtain u v where uv: "x # xs = u @ sub @ v" by blast
    show "contains (x # xs) sub"
    proof (cases u)
      case Nil
      with uv have "startswith (x # xs) sub" by (auto simp: startswith_iff)
      then show ?thesis by simp
    next
      case (Cons y ys)
      with uv have "xs = ys @ sub @ v" by simp
      with Cons.IH have "contains xs sub" by blast
      then show ?thesis by simp
    qed
  qed
qed

lemma matches_both_iff:
  "matches_sender p f \<and> matches_subject p s \<longleftrightarrow> provider_matches p f s"
  by (auto simp: matches_sender_def matches_subject_def provider_matches_def any_def
      list_ex_iff contains_iff)

lemma identify_in_None:
  "identify_in ps f s = None \<longleftrightarrow> (\<forall>sp \<in> set ps. \<not> provider_matches (snd sp) f s)"
  by (induction ps f s rule: identify_in.induct) (auto simp: matches_both_iff[symmetric])

lemma identify_in_Some:
  "identify_in ps f s = Some src \<longleftrightarrow>
     (\<exists>pre p post. ps = pre @ (src, p) # post \<and> provider_matches p f s \<and>
        (\<forall>sp \<in> set pre. \<not> provider_matches (snd sp) f s))"
proof (induction ps f s rule: identify_in.induct)
  case (1 f s)
  then show ?case by simp
next
  case (2 source pattern rest f s)
  show ?case
  proof (cases "provider_matches pattern f s")
    case True
    then have lhs: "identify_in ((source, pattern) # rest) f s = Some source"
      by (simp add: matches_both_iff)
    show ?thesis
    proof
      assume "identify_in ((source, pattern) # rest) f s = Some src"
      with lhs have "src = source" by simp
      with True have "(source, pattern) # rest = [] @ (src, pattern) # rest \<and>
         provider_matches pattern f s \<and> (\<forall>sp \<in> set []. \<not> provider_matches (snd sp) f s)"
        by simp
      then show "\<exists>pre p post. (source, pattern) # rest = pre @ (src, p) # post \<and>
         provider_matches p f s \<and> (\<forall>sp \<in> set pre. \<not> provider_matches (snd sp) f s)"
        by blast
    next
      assume "\<exists>pre p post. (source, pattern) # rest = pre @ (src, p) # post \<and>
         provider_matches p f s \<and> (\<forall>sp \<in> set pre. \<not> provider_matches (snd sp) f s)"
      then obtain pre p post where e: "(source, pattern) # rest = pre @ (src, p) # post"
        and n: "\<forall>sp \<in> set pre. \<not> provider_matches (snd sp) f s" by blast
      have "pre = []"
      proof (cases pre)
        case Nil then show ?thesis .
      next
        case (Cons a as)
        with e have "a = (source, pattern)" by simp
        with Cons n True show ?thesis by auto
      qed
      with e have "src = source" by simp
      with lhs show "identify_in ((source, pattern) # rest) f s = Some src" by simp
    qed
  next
    case False
    then have lhs: "identify_in ((source, pattern) # rest) f s = identify_in rest f s"
      by (simp add: matches_both_iff)
    from False have ih: "identify_in rest f s = Some src \<longleftrightarrow>
     (\<exists>pre p post. rest = pre @ (src, p) # post \<and> provider_matches p f s \<and>
        (\<forall>sp \<in> set pre. \<not> provider_matches (snd sp) f s))"
      using "2.IH" by (simp add: matches_both_iff)
    show ?thesis
    proof
      assume "identify_in ((source, pattern) # rest) f s = Some src"
      with lhs ih obtain pre p post where "rest = pre @ (src, p) # post"
        "provider_matches p f s" "\<forall>sp \<in> set pre. \<not> provider_matches (snd sp) f s" by auto
      with False have "(source, pattern) # rest = ((source, pattern) # pre) @ (src, p) # post \<and>
         provider_matches p f s \<and> (\<forall>sp \<in> set ((source, pattern) # pre). \<not> provider_matches (snd sp) f s)"
        by simp
      then show "\<exists>pre p post. (source, pattern) # rest = pre @ (src, p) # post \<and>
         provider_matches p f s \<and> (\<forall>sp \<in> set pre. \<not> provider_matches (snd sp) f s)"
        by blast
    next
      assume "\<exists>pre p post. (source, pattern) # rest = pre @ (src, p) # post \<and>
         provider_matches p f s \<and> (\<forall>sp \<in> set pre. \<not> provider_matches (snd sp) f s)"
      then obtain pre p post where e: "(source, pattern) # rest = pre @ (src, p) # post"
        and m: "provider_matches p f s"
        and n: "\<forall>sp \<in> set pre. \<not> provider_matches (snd sp) f s" by blast
      from e m False obtain pre' where p': "pre = (source, pattern) # pre'"
        by (cases pre) auto
      with e have "rest = pre' @ (src, p) # post" by simp
      moreover from n p' have "\<forall>sp \<in> set pre'. \<not> provider_matches (snd sp) f s" by simp
      ultimately have "identify_in rest f s = Some src" using ih m by blast
      with lhs show "identify_in ((source, pattern) # rest) f s = Some src" by simp
    qed
  qed
qed

text \<open>
  C2: classification returns a provider exactly when some provider satisfies both the sender
  condition and the subject condition, none when no provider does, and the provider it
  returns is the first of the table, in its fixed order, that satisfies both.
\<close>

theorem classify_iff:
  "(identify_payment_source f s = None \<longleftrightarrow>
      (\<forall>sp \<in> set patterns. \<not> provider_matches (snd sp) f s)) \<and>
   (identify_payment_source f s = Some src \<longleftrightarrow>
      (\<exists>pre p post. patterns = pre @ (src, p) # post \<and> provider_matches p f s \<and>
         (\<forall>sp \<in> set pre. \<not> provider_matches (snd sp) f s)))"
  unfolding identify_payment_source_def
  using identify_in_None[of patterns f s] identify_in_Some[of patterns f s src] by blast

lemma zelle_matches:
  "provider_matches (snd (hd patterns)) ''Alert@zellepay.com'' ''You received a payment''"
proof -
  have a: "lower ''Alert@zellepay.com'' = [] @ ''alert@zellepay.com'' @ []"
    by (simp add: lower_def lower_char_def upper_letters_def lower_letters_def)
  have b: "lower ''You received a payment'' = ''you '' @ ''received'' @ '' a payment''"
    by (simp add: lower_def lower_char_def upper_letters_def lower_letters_def)
  have "\<exists>u v. lower ''Alert@zellepay.com'' = u @ ''alert@zellepay.com'' @ v"
    using a by blast
  moreover have "\<exists>u v. lower ''You received a payment'' = u @ ''received'' @ v"
    using b by blast
  ultimately show ?thesis
    unfolding provider_matches_def patterns_def by simp
qed

theorem classify_iff_witness:
  "identify_payment_source ''Alert@zellepay.com'' ''You received a payment'' = Some ZELLE"
proof -
  have "patterns = [] @ (ZELLE, snd (hd patterns)) # tl patterns"
    by (simp add: patterns_def)
  moreover have "\<forall>sp \<in> set []. \<not> provider_matches (snd sp) ''Alert@zellepay.com'' ''You received a payment''"
    by simp
  ultimately have "\<exists>pre p post. patterns = pre @ (ZELLE, p) # post \<and>
       provider_matches p ''Alert@zellepay.com'' ''You received a payment'' \<and>
       (\<forall>sp \<in> set pre. \<not> provider_matches (snd sp) ''Alert@zellepay.com'' ''You received a payment'')"
    using zelle_matches by blast
  then show ?thesis
    using classify_iff[of "''Alert@zellepay.com''" "''You received a payment''" ZELLE] by blast
qed

subsection \<open>Field extractor\<close>

text \<open>
  The equation of \<open>matches\<close> for a repetition rewrites its own right-hand side; it is
  unfolded by hand, into the two equations for the repetition of a character class.
\<close>

declare matches.simps(6) [simp del]

lemma star_cls_Nil: "matches ic (Star (Cls k)) [] cs = [([], cs)]"
  by (subst matches.simps(6)) simp

lemma star_cls_Cons:
  "matches ic (Star (Cls k)) (x # t) cs =
     (if cls_matches ic k x then matches ic (Star (Cls k)) t cs @ [(x # t, cs)] else [(x # t, cs)])"
  by (subst matches.simps(6)) simp

lemma star_cls_stop:
  "post = [] \<or> \<not> cls_matches ic k (hd post) \<Longrightarrow> matches ic (Star (Cls k)) post cs = [(post, cs)]"
  by (cases post) (auto simp: star_cls_Nil star_cls_Cons)

lemma star_cls_hd:
  "\<exists>rest. matches ic (Star (Cls k)) s cs = (dropWhile (cls_matches ic k) s, cs) # rest"
  by (induction s) (auto simp: star_cls_Nil star_cls_Cons)

subsubsection \<open>Trimming\<close>

lemma strip_Nil: "strip [] = []"
  by (simp add: strip_def)

lemma strip_drop:
  "dropWhile is_space s = strip s @ rev (takeWhile is_space (rev (dropWhile is_space s)))"
proof -
  define m where "m = dropWhile is_space s"
  have "rev (dropWhile is_space (rev m)) @ rev (takeWhile is_space (rev m))
          = rev (takeWhile is_space (rev m) @ dropWhile is_space (rev m))"
    by (simp only: rev_append)
  also have "\<dots> = rev (rev m)" by (simp only: takeWhile_dropWhile_id)
  also have "\<dots> = m" by simp
  finally show ?thesis by (simp add: strip_def m_def)
qed

lemma strip_decompose:
  "s = takeWhile is_space s @ strip s @ rev (takeWhile is_space (rev (dropWhile is_space s)))"
proof -
  have "s = takeWhile is_space s @ dropWhile is_space s" by simp
  also have "dropWhile is_space s
      = strip s @ rev (takeWhile is_space (rev (dropWhile is_space s)))"
    by (rule strip_drop)
  finally show ?thesis .
qed

lemma strip_ends:
  assumes "strip s \<noteq> []"
  shows "\<not> is_space (hd (strip s)) \<and> \<not> is_space (last (strip s))"
proof -
  define m where "m = dropWhile is_space s"
  have d: "dropWhile is_space (rev m) \<noteq> []" using assms by (simp add: strip_def m_def)
  then have "\<not> is_space (hd (dropWhile is_space (rev m)))" by (rule hd_dropWhile)
  then have l: "\<not> is_space (last (strip s))"
    using d by (simp add: strip_def m_def last_rev)
  have "m = strip s @ rev (takeWhile is_space (rev m))"
    unfolding m_def by (rule strip_drop)
  with assms have "hd (strip s) = hd m" by (metis hd_append2)
  moreover have "m \<noteq> []" using d by auto
  then have "\<not> is_space (hd m)" unfolding m_def by (rule hd_dropWhile)
  ultimately show ?thesis using l by simp
qed

lemma strip_trimmed: "trimmed g (strip g)"
proof -
  have a: "set (takeWhile is_space g) \<subseteq> set whitespace"
    using set_takeWhileD[of _ is_space g] by (auto simp: is_space_def)
  have b: "set (rev (takeWhile is_space (rev (dropWhile is_space g)))) \<subseteq> set whitespace"
    using set_takeWhileD[of _ is_space "rev (dropWhile is_space g)"] by (auto simp: is_space_def)
  have c: "strip g = [] \<or> (hd (strip g) \<notin> set whitespace \<and> last (strip g) \<notin> set whitespace)"
    using strip_ends[of g] by (auto simp: is_space_def)
  from strip_decompose[of g] a b c show ?thesis unfolding trimmed_def by blast
qed

lemma strip_empty_iff: "strip s = [] \<longleftrightarrow> set s \<subseteq> set whitespace"
proof
  assume e: "strip s = []"
  with strip_decompose[of s]
  have "s = takeWhile is_space s @ rev (takeWhile is_space (rev (dropWhile is_space s)))" by simp
  then have "set s \<subseteq> set (takeWhile is_space s) \<union> set (takeWhile is_space (rev (dropWhile is_space s)))"
    by (metis set_append set_rev subset_refl)
  then show "set s \<subseteq> set whitespace"
    using set_takeWhileD[of _ is_space s] set_takeWhileD[of _ is_space "rev (dropWhile is_space s)"]
    by (auto simp: is_space_def)
next
  assume "set s \<subseteq> set whitespace"
  then have "\<forall>c \<in> set s. is_space c" by (auto simp: is_space_def)
  then have d: "dropWhile is_space s = []" by (simp only: dropWhile_eq_Nil_conv)
  show "strip s = []" unfolding strip_def d by simp
qed

lemma trimmed_unique:
  assumes "trimmed g t" "t \<noteq> []"
  shows "t = strip g"
proof -
  from assms obtain pre post where g: "g = pre @ t @ post"
    and pre: "set pre \<subseteq> set whitespace" and post: "set post \<subseteq> set whitespace"
    and h: "hd t \<notin> set whitespace" and l: "last t \<notin> set whitespace"
    unfolding trimmed_def by blast
  from assms(2) obtain x t' where t: "t = x # t'" by (cases t) auto
  from pre have p: "\<forall>c \<in> set pre. is_space c" by (auto simp: is_space_def)
  from h t have nx: "\<not> is_space x" by (simp add: is_space_def)
  have d: "dropWhile is_space g = t @ post"
    using p nx by (simp add: g t dropWhile_append)
  from post have q: "\<forall>c \<in> set (rev post). is_space c" by (auto simp: is_space_def)
  from l assms(2) have "\<not> is_space (hd (rev t))" by (simp add: is_space_def hd_rev)
  moreover from assms(2) have "rev t \<noteq> []" by simp
  ultimately have "dropWhile is_space (rev post @ rev t) = rev t"
    using q by (cases "rev t") (simp_all add: dropWhile_append)
  then show ?thesis by (simp add: strip_def d)
qed

lemma first_group_blank: "\<forall>g \<in> set m. blank g \<Longrightarrow> first_group m = ''Unknown''"
  by (induction m rule: first_group.induct) (auto simp: blank_def strip_empty_iff)

lemma first_group_first:
  "i < length m \<Longrightarrow> m ! i = Some g \<Longrightarrow> \<not> blank (Some g) \<Longrightarrow> \<forall>j<i. blank (m ! j) \<Longrightarrow>
   first_group m = strip g"
proof (induction m arbitrary: i rule: first_group.induct)
  case 1
  then show ?case by simp
next
  case (2 gs)
  then obtain i' where i: "i = Suc i'" by (cases i) (auto simp: blank_def)
  with 2 have "\<forall>j<i'. blank (gs ! j)" by auto
  with 2 i show ?case by auto
next
  case (3 h gs)
  show ?case
  proof (cases i)
    case 0
    with 3 show ?thesis by (auto simp: strip_Nil blank_def strip_empty_iff)
  next
    case (Suc i')
    with 3 have b: "blank (Some h)" by force
    from 3 Suc have "\<forall>j<i'. blank (gs ! j)" by auto
    with 3 Suc b show ?thesis by (auto simp: blank_def strip_empty_iff)
  qed
qed

text \<open>
  C5: payer-name extraction searches with the pattern case-insensitively; when the pattern
  does not match, or every group is missing or holds only whitespace, it returns
  \<open>Unknown\<close>; otherwise it returns the first group, in group order, that holds something
  besides whitespace, without the whitespace at its two ends (and so a text that is not
  empty). It is a total function into strings: it has no error result.
\<close>

theorem extract_client_name_spec:
  "(re_search pattern text True = None \<longrightarrow> extract_client_name text pattern = ''Unknown'') \<and>
   (\<forall>m. re_search pattern text True = Some m \<and> (\<forall>g \<in> set m. blank g) \<longrightarrow>
        extract_client_name text pattern = ''Unknown'') \<and>
   (\<forall>m i g. re_search pattern text True = Some m \<and> i < length m \<and> m ! i = Some g \<and>
        \<not> blank (Some g) \<and> (\<forall>j<i. blank (m ! j)) \<longrightarrow>
        trimmed g (extract_client_name text pattern) \<and>
        extract_client_name text pattern \<noteq> [] \<and>
        (\<forall>t. trimmed g t \<and> t \<noteq> [] \<longrightarrow> extract_client_name text pattern = t))"
proof (intro conjI allI impI)
  assume "re_search pattern text True = None"
  then show "extract_client_name text pattern = ''Unknown''"
    by (simp add: extract_client_name_def)
next
  fix m assume "re_search pattern text True = Some m \<and> (\<forall>g \<in> set m. blank g)"
  then show "extract_client_name text pattern = ''Unknown''"
    by (simp add: extract_client_name_def first_group_blank)
next
  fix m i g
  assume a: "re_search pattern text True = Some m \<and> i < length m \<and> m ! i = Some g \<and>
        \<not> blank (Some g) \<and> (\<forall>j<i. blank (m ! j))"
  then have e: "extract_client_name text pattern = strip g"
    using first_group_first[of i m g] by (simp add: extract_client_name_def)
  from a have n: "strip g \<noteq> []" by (simp add: blank_def strip_empty_iff)
  show "trimmed g (extract_client_name text pattern)" unfolding e by (rule strip_trimmed)
  show "extract_client_name text pattern \<noteq> []" unfolding e by (rule n)
  fix t assume "trimmed g t \<and> t \<noteq> []"
  then show "extract_client_name text pattern = t" unfolding e using trimmed_unique by blast
qed

lemma name_search_upper:
  "re_search (name_re ''sent'') ''  JOHN SMITH SENT You $5'' True = Some [Some ''JOHN SMITH'', None]"
  by code_simp

lemma name_search_from:
  "re_search (name_re ''sent'') ''$5 from Al B'' True = Some [None, Some ''Al B'']"
  by code_simp

lemma name_search_none: "re_search (name_re ''sent'') ''no name'' True = None"
  by code_simp

lemma name_search_nbsp:
  "re_search (name_re ''sent'') (''Al'' @ [CHR 0xA0] @ ''B sent you'') True
     = Some [Some (''Al'' @ [CHR 0xA0] @ ''B''), None]"
  by code_simp

lemma name_search_edge:
  "re_search edge_name_re (''X '' @ [CHR 0xA0] @ ''al b '') True
     = Some [Some '' '', Some ([CHR 0xA0] @ ''al b '')]"
  by code_simp

lemma extract_name_edge:
  "extract_client_name (''X '' @ [CHR 0xA0] @ ''al b '') edge_name_re = ''al b''"
  by code_simp

lemma extract_name_nbsp:
  "extract_client_name (''Al'' @ [CHR 0xA0] @ ''B sent you'') (name_re ''sent'')
     = ''Al'' @ [CHR 0xA0] @ ''B''"
  by code_simp

theorem extract_client_name_spec_witness:
  "extract_client_name ''  JOHN SMITH SENT You $5'' (name_re ''sent'') = ''JOHN SMITH'' \<and>
   extract_client_name ''$5 from Al B'' (name_re ''sent'') = ''Al B'' \<and>
   extract_client_name ''no name'' (name_re ''sent'') = ''Unknown'' \<and>
   extract_client_name (''Al'' @ [CHR 0xA0] @ ''B sent you'') (name_re ''sent'')
     = ''Al'' @ [CHR 0xA0] @ ''B'' \<and>
   trimmed ([CHR 0xA0] @ ''al b '') (extract_client_name (''X '' @ [CHR 0xA0] @ ''al b '') edge_name_re) \<and>
   extract_client_name (''X '' @ [CHR 0xA0] @ ''al b '') edge_name_re = ''al b''"
proof -
  let ?p = "name_re ''sent''"
  have t1: "trimmed ''JOHN SMITH'' ''JOHN SMITH''"
    unfolding trimmed_def
    by (intro exI[of _ "[]"]) (simp add: whitespace_def)
  have t2: "trimmed ''Al B'' ''Al B''"
    unfolding trimmed_def
    by (intro exI[of _ "[]"]) (simp add: whitespace_def)
  have b1: "\<not> blank (Some ''JOHN SMITH'')" "\<not> blank (Some ''Al B'')" "blank None"
    "blank (Some '' '')" "\<not> blank (Some ([CHR 0xA0] @ ''al b ''))"
    by (simp_all add: blank_def whitespace_def)
  have "(0::nat) < length [Some ''JOHN SMITH'', None] \<and>
        [Some ''JOHN SMITH'', None] ! 0 = Some ''JOHN SMITH'' \<and> \<not> blank (Some ''JOHN SMITH'') \<and>
        (\<forall>j<(0::nat). blank ([Some ''JOHN SMITH'', None] ! j))"
    using b1 by simp
  with extract_client_name_spec[of ?p "''  JOHN SMITH SENT You $5''"] name_search_upper
  have "\<forall>t. trimmed ''JOHN SMITH'' t \<and> t \<noteq> [] \<longrightarrow>
          extract_client_name ''  JOHN SMITH SENT You $5'' ?p = t" by blast
  with t1 have a: "extract_client_name ''  JOHN SMITH SENT You $5'' ?p = ''JOHN SMITH''" by simp
  have "(1::nat) < length [None, Some ''Al B''] \<and> [None, Some ''Al B''] ! 1 = Some ''Al B'' \<and>
        \<not> blank (Some ''Al B'') \<and> (\<forall>j<(1::nat). blank ([None, Some ''Al B''] ! j))"
    using b1 by simp
  with extract_client_name_spec[of ?p "''$5 from Al B''"] name_search_from
  have "\<forall>t. trimmed ''Al B'' t \<and> t \<noteq> [] \<longrightarrow> extract_client_name ''$5 from Al B'' ?p = t"
    by blast
  with t2 have b: "extract_client_name ''$5 from Al B'' ?p = ''Al B''" by simp
  have c: "extract_client_name ''no name'' ?p = ''Unknown''"
    using extract_client_name_spec[of ?p "''no name''"] name_search_none by blast
  have "(1::nat) < length [Some '' '', Some ([CHR 0xA0] @ ''al b '')] \<and>
        [Some '' '', Some ([CHR 0xA0] @ ''al b '')] ! 1 = Some ([CHR 0xA0] @ ''al b '') \<and>
        \<not> blank (Some ([CHR 0xA0] @ ''al b '')) \<and>
        (\<forall>j<(1::nat). blank ([Some '' '', Some ([CHR 0xA0] @ ''al b '')] ! j))"
    using b1 by simp
  with extract_client_name_spec[of edge_name_re "''X '' @ [CHR 0xA0] @ ''al b ''"] name_search_edge
  have d: "trimmed ([CHR 0xA0] @ ''al b '')
             (extract_client_name (''X '' @ [CHR 0xA0] @ ''al b '') edge_name_re)"
    by blast
  from a b c d extract_name_edge extract_name_nbsp show ?thesis by blast
qed

subsubsection \<open>The providers' amount pattern against the scanner\<close>

lemma seq_hd:
  assumes "matches ic a s cs = p # ps" "matches ic b (fst p) (snd p) = q # qs"
  shows "\<exists>rest. matches ic (Seq a b) s cs = q # rest"
  using assms by simp

lemma seq_nil: "matches ic a s cs = [] \<Longrightarrow> matches ic (Seq a b) s cs = []"
  by simp

lemma cls_matches_sensitive: "cls_matches False k = (\<lambda>x. x \<in> set k)"
  by (rule ext) (simp add: cls_matches_def)

lemma take_prefix: "xs = u @ v \<Longrightarrow> take (length xs - length v) xs = u"
  by simp

lemma span_append:
  assumes "\<forall>x \<in> set xs. P x" "ys = [] \<or> \<not> P (hd ys)"
  shows "takeWhile P (xs @ ys) = xs" "dropWhile P (xs @ ys) = ys"
proof -
  from assms(2) have t: "takeWhile P ys = []" and d: "dropWhile P ys = ys"
    by (cases ys; simp)+
  from assms(1) show "takeWhile P (xs @ ys) = xs" by (simp add: takeWhile_append2 t)
  from assms(1) show "dropWhile P (xs @ ys) = ys" by (simp add: dropWhile_append d)
qed

text \<open>What is left of a text after the token at its start.\<close>

lemma amount_body_hd:
  assumes "d \<in> set ''0123456789,''"
  shows "\<exists>final rest.
     matches False (seqs [Plus (Cls ''0123456789,''), Opt (Lit CHR ''.''), Star (Cls ''0123456789'')])
       (d # s) cs = (final, cs) # rest \<and>
     d # s = amount_token (d # s) @ final"
proof -
  let ?P' = "\<lambda>c. c \<in> set ''0123456789,''"
  let ?P = "\<lambda>c. c \<in> set ''0123456789''"
  define a where "a = takeWhile ?P' (d # s)"
  define r where "r = dropWhile ?P' (d # s)"
  have ar: "d # s = a @ r" by (simp add: a_def r_def)
  have r': "r = dropWhile ?P' s" using assms by (simp add: r_def)
  have rh: "r = [] \<or> \<not> ?P' (hd r)" unfolding r_def
    by (metis (mono_tags, lifting) hd_dropWhile)
  obtain rest1 where m1: "matches False (Star (Cls ''0123456789,'')) s cs = (r, cs) # rest1"
    using star_cls_hd[of False "''0123456789,''" s cs]
    unfolding cls_matches_sensitive r' by blast
  have c1: "matches False (Cls ''0123456789,'') (d # s) cs = [(s, cs)]"
    using assms by (simp add: cls_matches_def)
  have "\<exists>rest. matches False (Seq (Cls ''0123456789,'') (Star (Cls ''0123456789,''))) (d # s) cs
           = (r, cs) # rest"
    by (rule seq_hd[OF c1]) (simp add: m1)
  then obtain rest2 where m2: "matches False (Plus (Cls ''0123456789,'')) (d # s) cs = (r, cs) # rest2"
    unfolding Plus_def by blast
  define final where "final = (case r of [] \<Rightarrow> [] | c # t \<Rightarrow> if c = CHR ''.'' then dropWhile ?P t else r)"
  have m3: "\<exists>rest3. matches False (Seq (Opt (Lit CHR ''.'')) (Star (Cls ''0123456789''))) r cs
                = (final, cs) # rest3"
  proof (cases r)
    case Nil
    then show ?thesis by (simp add: Opt_def lit_matches_def star_cls_Nil final_def)
  next
    case (Cons c t)
    show ?thesis
    proof (cases "c = CHR ''.''")
      case True
      obtain rest where "matches False (Star (Cls ''0123456789'')) t cs = (dropWhile ?P t, cs) # rest"
        using star_cls_hd[of False "''0123456789''" t cs] unfolding cls_matches_sensitive by blast
      with Cons True show ?thesis by (simp add: Opt_def lit_matches_def final_def)
    next
      case False
      from rh Cons have "\<not> ?P' c" by simp
      then have "\<not> cls_matches False ''0123456789'' c" by (simp add: cls_matches_def)
      then have "matches False (Star (Cls ''0123456789'')) (c # t) cs = [(c # t, cs)]"
        by (simp add: star_cls_Cons)
      with Cons False show ?thesis by (simp add: Opt_def lit_matches_def final_def)
    qed
  qed
  then obtain rest3 where m3': "matches False (Seq (Opt (Lit CHR ''.'')) (Star (Cls ''0123456789''))) r cs
                = (final, cs) # rest3" by blast
  have "\<exists>rest. matches False (Seq (Plus (Cls ''0123456789,'')) (Seq (Opt (Lit CHR ''.'')) (Star (Cls ''0123456789''))))
       (d # s) cs = (final, cs) # rest"
  proof (rule seq_hd[OF m2])
    show "matches False (Seq (Opt (Lit CHR ''.'')) (Star (Cls ''0123456789''))) (fst (r, cs)) (snd (r, cs))
            = (final, cs) # rest3"
      unfolding fst_conv snd_conv by (rule m3')
  qed
  then obtain rest where m: "matches False (seqs [Plus (Cls ''0123456789,''), Opt (Lit CHR ''.''), Star (Cls ''0123456789'')])
       (d # s) cs = (final, cs) # rest" unfolding seqs.simps by blast
  have tok: "amount_token (d # s) = (case r of [] \<Rightarrow> a | c # t \<Rightarrow> if c = CHR ''.'' then a @ [c] @ takeWhile ?P t else a)"
    by (simp only: amount_token_def Let_def a_def r_def)
  have "d # s = amount_token (d # s) @ final"
  proof (cases r)
    case Nil
    have t: "amount_token (d # s) = a" by (simp only: tok Nil list.case)
    have f: "final = []" by (simp only: final_def Nil list.case)
    from ar Nil show ?thesis unfolding t f by simp
  next
    case (Cons c t)
    show ?thesis
    proof (cases "c = CHR ''.''")
      case True
      have t: "amount_token (d # s) = a @ [c] @ takeWhile ?P t"
        by (simp only: tok Cons list.case True if_True refl simp_thms)
      have f: "final = dropWhile ?P t" by (simp only: final_def Cons list.case True if_True refl simp_thms)
      from ar Cons show ?thesis unfolding t f by simp
    next
      case False
      have t: "amount_token (d # s) = a" by (simp only: tok Cons list.case False if_False refl simp_thms)
      have f: "final = r" by (simp only: final_def Cons list.case False if_False refl simp_thms)
      from ar show ?thesis unfolding t f .
    qed
  qed
  with m show ?thesis by blast
qed

lemma amount_re_match:
  assumes "d \<in> set ''0123456789,''"
  shows "\<exists>final rest. matches False amount_re (CHR ''$'' # d # s) [] =
           (final, [(1, amount_token (d # s))]) # rest"
proof -
  let ?body = "seqs [Plus (Cls ''0123456789,''), Opt (Lit CHR ''.''), Star (Cls ''0123456789'')]"
  from amount_body_hd[OF assms, of s "[]"] obtain final rest where
    m: "matches False ?body (d # s) [] = (final, []) # rest" and
    e: "d # s = amount_token (d # s) @ final" by blast
  from e have "take (length (d # s) - length final) (d # s) = amount_token (d # s)"
    by (rule take_prefix)
  with m have "matches False (Group 1 ?body) (d # s) [] =
      (final, [(1, amount_token (d # s))]) # map (\<lambda>p. (fst p, (1, take (length (d # s) - length (fst p)) (d # s)) # snd p)) rest"
    by simp
  then show ?thesis
    by (simp add: amount_re_def lit_matches_def)
qed

lemma amount_re_no_match:
  assumes "\<not> (\<exists>d s. text = CHR ''$'' # d # s \<and> d \<in> set ''0123456789,'')"
  shows "matches False amount_re text [] = []"
proof (cases "text")
  case Nil
  then show ?thesis by (simp add: amount_re_def)
next
  case (Cons c t)
  show ?thesis
  proof (cases "c = CHR ''$''")
    case False
    with Cons show ?thesis by (simp add: amount_re_def lit_matches_def)
  next
    case True
    show ?thesis
    proof (cases t)
      case Nil
      with Cons True show ?thesis
        by (simp add: amount_re_def lit_matches_def Plus_def)
    next
      case c2: (Cons d s)
      with assms Cons True have "d \<notin> set ''0123456789,''" by blast
      with Cons True c2 show ?thesis
        by (simp add: amount_re_def lit_matches_def Plus_def cls_matches_def)
    qed
  qed
qed

lemma search_amount: "search_from False amount_re text = map_option (\<lambda>g. [(1, g)]) (find_amount text)"
proof (induction "text" rule: find_amount.induct)
  case 1
  then show ?case by (simp add: amount_re_no_match)
next
  case (2 c)
  have "matches False amount_re [c] [] = []" by (rule amount_re_no_match) simp
  then show ?case by (simp add: amount_re_no_match)
next
  case (3 c d s)
  show ?case
  proof (cases "c = CHR ''$'' \<and> d \<in> set ''0123456789,''")
    case True
    then obtain final rest where
      "matches False amount_re (c # d # s) [] = (final, [(1, amount_token (d # s))]) # rest"
      using amount_re_match[of d s] by blast
    with True show ?thesis by simp
  next
    case False
    then have "\<not> (\<exists>e t. c # d # s = CHR ''$'' # e # t \<and> e \<in> set ''0123456789,'')"
      by blast
    then have "matches False amount_re (c # d # s) [] = []"
      by (rule amount_re_no_match)
    then have sf: "search_from False amount_re (c # d # s) = search_from False amount_re (d # s)"
      by (simp only: search_from.simps list.case)
    have fa: "find_amount (c # d # s) = find_amount (d # s)"
      by (simp only: find_amount.simps False if_False)
    from 3[OF False] sf fa show ?thesis by (simp only:)
  qed
qed

lemma ngroups_amount_re: "ngroups amount_re = 1"
  by (simp add: amount_re_def Plus_def Opt_def)

lemma re_search_amount:
  "re_search amount_re text False = map_option (\<lambda>g. [Some g]) (find_amount text)"
  by (cases "find_amount text") (simp_all add: re_search_def search_amount ngroups_amount_re)

lemma find_amount_None_iff:
  "find_amount text = None \<longleftrightarrow>
     \<not> (\<exists>pre d post. text = pre @ CHR ''$'' # d # post \<and> d \<in> set ''0123456789,'')"
proof (induction "text" rule: find_amount.induct)
  case 1
  then show ?case by simp
next
  case (2 c)
  show ?case
  proof -
    have "\<not> (\<exists>pre d post. [c] = pre @ CHR ''$'' # d # post \<and> d \<in> set ''0123456789,'')"
    proof
      assume "\<exists>pre d post. [c] = pre @ CHR ''$'' # d # post \<and> d \<in> set ''0123456789,''"
      then obtain pre d post where "[c] = pre @ CHR ''$'' # d # post" by blast
      then have "length [c] = length (pre @ CHR ''$'' # d # post)" by (rule arg_cong)
      then show False by simp
    qed
    then show ?thesis by simp
  qed
next
  case (3 c d s)
  show ?case
  proof (cases "c = CHR ''$'' \<and> d \<in> set ''0123456789,''")
    case True
    then have "c # d # s = [] @ CHR ''$'' # d # s \<and> d \<in> set ''0123456789,''" by simp
    then have "\<exists>pre e post. c # d # s = pre @ CHR ''$'' # e # post \<and> e \<in> set ''0123456789,''"
      by blast
    moreover have "find_amount (c # d # s) = Some (amount_token (d # s))"
      using True by simp
    ultimately show ?thesis by (metis option.distinct(1))
  next
    case False
    have "(\<exists>pre e post. c # d # s = pre @ CHR ''$'' # e # post \<and> e \<in> set ''0123456789,'') \<longleftrightarrow>
          (\<exists>pre e post. d # s = pre @ CHR ''$'' # e # post \<and> e \<in> set ''0123456789,'')"
    proof
      assume "\<exists>pre e post. c # d # s = pre @ CHR ''$'' # e # post \<and> e \<in> set ''0123456789,''"
      then obtain pre e post where p: "c # d # s = pre @ CHR ''$'' # e # post"
        and e: "e \<in> set ''0123456789,''" by blast
      from p e False obtain pre' where "pre = c # pre'" by (cases pre) auto
      with p have "d # s = pre' @ CHR ''$'' # e # post" by simp
      with e show "\<exists>pre e post. d # s = pre @ CHR ''$'' # e # post \<and> e \<in> set ''0123456789,''"
        by blast
    next
      assume "\<exists>pre e post. d # s = pre @ CHR ''$'' # e # post \<and> e \<in> set ''0123456789,''"
      then obtain pre e post where "d # s = pre @ CHR ''$'' # e # post"
        and e: "e \<in> set ''0123456789,''" by blast
      then have "c # d # s = (c # pre) @ CHR ''$'' # e # post" by simp
      with e show "\<exists>pre e post. c # d # s = pre @ CHR ''$'' # e # post \<and> e \<in> set ''0123456789,''"
        by blast
    qed
    moreover have "find_amount (c # d # s) = find_amount (d # s)"
      by (simp only: find_amount.simps False if_False)
    ultimately show ?thesis using 3[OF False] by (simp only:)
  qed
qed

subsubsection \<open>The decimal value of a token\<close>

lemma foldl_digits:
  "foldl (\<lambda>n c. 10 * n + digit_val c) n xs = n * 10 ^ length xs + nat_of_digits xs"
  by (induction xs arbitrary: n) (simp_all add: algebra_simps)

lemma nat_of_digits_append:
  "nat_of_digits (a @ b) = nat_of_digits a * 10 ^ length b + nat_of_digits b"
  by (induction a) (simp_all add: algebra_simps power_add)

lemma digits_value_append:
  "digits_value (a @ b) = nat_of_digits a * 10 ^ length b + nat_of_digits b"
  by (simp add: digits_value_def foldl_digits nat_of_digits_append)

lemma digit_not_space: "is_digit c \<Longrightarrow> \<not> is_space c"
  by (auto simp add: is_digit_def digit_chars_def is_space_def whitespace_def)

lemma digit_not_sign: "is_digit c \<Longrightarrow> c \<noteq> CHR ''-'' \<and> c \<noteq> CHR ''+'' \<and> c \<noteq> CHR ''_'' \<and> c \<noteq> CHR '','' \<and> c \<noteq> CHR ''.''"
  by (auto simp add: is_digit_def digit_chars_def)

lemma point_plain: "\<not> is_space CHR ''.''" "\<not> is_digit CHR ''.''" "lower_char CHR ''.'' = CHR ''.''"
  by (simp_all add: is_space_def whitespace_def is_digit_def digit_chars_def lower_char_def
        upper_letters_def lower_letters_def)

lemma token_char: "c \<in> set ''0123456789,'' \<longleftrightarrow> is_digit c \<or> c = CHR '',''"
  by (auto simp add: is_digit_def digit_chars_def)

lemma strip_id:
  assumes "\<forall>c \<in> set t. \<not> is_space c"
  shows "strip t = t"
proof -
  have "dropWhile is_space t = t"
    using assms by (cases t) simp_all
  moreover have "dropWhile is_space (rev t) = rev t"
  proof -
    from assms have "\<forall>c \<in> set (rev t). \<not> is_space c" by simp
    then show ?thesis by (cases "rev t") simp_all
  qed
  ultimately show ?thesis by (simp add: strip_def)
qed

lemma Decimal_plain:
  assumes a: "\<forall>c \<in> set a. is_digit c" and b: "\<forall>c \<in> set b. is_digit c"
    and p: "p = [] \<or> p = CHR ''.'' # b" and pb: "p = [] \<longrightarrow> b = []"
  shows "Decimal (a @ p) =
           (if a = [] \<and> b = [] then None
            else Some (Dec (of_nat (nat_of_digits a) + of_nat (nat_of_digits b) / 10 ^ length b)))"
proof -
  let ?t = "a @ p"
  have chars: "\<forall>c \<in> set ?t. is_digit c \<or> c = CHR ''.''"
    using a b p by auto
  have st: "strip ?t = ?t"
    by (rule strip_id) (use chars digit_not_space point_plain(1) in blast)
  have us: "remove_char CHR ''_'' ?t = ?t"
    unfolding remove_char_def filter_id_conv using chars digit_not_sign by blast
  have sg: "split_sign ?t = (False, ?t)"
  proof (cases ?t)
    case Nil
    then show ?thesis by (simp add: split_sign_def)
  next
    case (Cons c r)
    then have "c \<in> set ?t" by (metis list.set_intros(1))
    with chars digit_not_sign have "c \<noteq> CHR ''-'' \<and> c \<noteq> CHR ''+''" by fastforce
    with Cons show ?thesis by (simp add: split_sign_def)
  qed
  have ph: "p = [] \<or> \<not> is_digit (hd p)" using p point_plain(2) by auto
  have ip: "takeWhile is_digit ?t = a" and r1: "dropWhile is_digit ?t = p"
    using span_append[of a is_digit p] a ph by blast+
  have bs: "takeWhile is_digit b = b" "dropWhile is_digit b = []"
    using b by simp_all
  have q: "(of_nat (digits_value (a @ b)) :: rat) / 10 ^ length b =
           of_nat (nat_of_digits a) + of_nat (nat_of_digits b) / 10 ^ length b"
    by (simp add: digits_value_append field_simps)
  from p show ?thesis
  proof
    assume e: "p = []"
    with pb have be: "b = []" by simp
    show ?thesis
    proof (cases "a = []")
      case True
      with e be show ?thesis
        by (simp add: Decimal_def strip_def remove_char_def split_sign_def lower_def)
    next
      case False
      from st us sg ip r1 q have f: "strip a = a" "remove_char CHR ''_'' a = a"
        "split_sign a = (False, a)" "takeWhile is_digit a = a" "dropWhile is_digit a = []"
        "digits_value a = nat_of_digits a"
        unfolding e be by simp_all
      from False show ?thesis by (simp add: Decimal_def Let_def f e be)
    qed
  next
    assume e: "p = CHR ''.'' # b"
    show ?thesis
    proof (cases "a = [] \<and> b = []")
      case True
      with e have "a @ p = ''.''" by simp
      moreover have "Decimal ''.'' = None"
        by (simp add: Decimal_def strip_def remove_char_def split_sign_def lower_def
              point_plain Let_def)
      ultimately show ?thesis using True by simp
    next
      case False
      note f = st[unfolded e] us[unfolded e] sg[unfolded e] ip[unfolded e] r1[unfolded e]
      from False show ?thesis by (simp add: Decimal_def Let_def f e bs q)
    qed
  qed
qed

lemma token_parts:
  assumes a: "set a \<subseteq> set ''0123456789,''"
    and p: "p = [] \<or> (\<exists>b. p = CHR ''.'' # b \<and> (\<forall>c \<in> set b. is_digit c))"
  shows "Decimal (remove_char CHR '','' (a @ p)) = map_option Dec (token_value (a @ p))"
proof -
  define a' where "a' = filter is_digit a"
  define b where "b = filter is_digit p"
  have ra: "remove_char CHR '','' a = a'"
    unfolding remove_char_def a'_def
    by (rule filter_cong[OF refl]) (use a token_char digit_not_sign in blast)
  have pc: "\<forall>c \<in> set p. c \<noteq> CHR '',''"
    using p
  proof
    assume "p = []"
    then show ?thesis by simp
  next
    assume "\<exists>b. p = CHR ''.'' # b \<and> (\<forall>c \<in> set b. is_digit c)"
    then obtain b0 where p0: "p = CHR ''.'' # b0" and b0: "\<forall>c \<in> set b0. is_digit c" by blast
    from b0 digit_not_sign have "\<forall>c \<in> set b0. c \<noteq> CHR '',''" by blast
    with p0 show ?thesis by simp
  qed
  then have rp: "remove_char CHR '','' p = p"
    unfolding remove_char_def filter_id_conv by blast
  have pb: "p = [] \<or> p = CHR ''.'' # b"
    using p unfolding b_def
  proof
    assume "p = []"
    then show "p = [] \<or> p = CHR ''.'' # filter is_digit p" by simp
  next
    assume "\<exists>b. p = CHR ''.'' # b \<and> (\<forall>c \<in> set b. is_digit c)"
    then obtain b0 where p0: "p = CHR ''.'' # b0" and b0: "\<forall>c \<in> set b0. is_digit c" by blast
    from b0 have "filter is_digit b0 = b0" by (simp add: filter_id_conv)
    with p0 show "p = [] \<or> p = CHR ''.'' # filter is_digit p" by (simp add: point_plain)
  qed
  have ad: "\<forall>c \<in> set a'. is_digit c" by (simp add: a'_def)
  have bd: "\<forall>c \<in> set b. is_digit c" by (simp add: b_def)
  have pe: "p = [] \<longrightarrow> b = []" by (simp add: b_def)
  have an: "\<forall>x \<in> set a. x \<noteq> CHR ''.''"
    using a token_char digit_not_sign by blast
  have ph: "p = [] \<or> \<not> (hd p \<noteq> CHR ''.'')" using pb by auto
  have tw: "takeWhile (\<lambda>c. c \<noteq> CHR ''.'') (a @ p) = a"
    and dw: "dropWhile (\<lambda>c. c \<noteq> CHR ''.'') (a @ p) = p"
    using span_append[of a "\<lambda>c. c \<noteq> CHR ''.''" p] an ph by blast+
  have tv: "token_value (a @ p) =
        (if a' = [] \<and> b = [] then None
         else Some (of_nat (nat_of_digits a') + of_nat (nat_of_digits b) / 10 ^ length b))"
    unfolding token_value_def tw dw a'_def b_def by (simp add: Let_def)
  have "remove_char CHR '','' (a @ p) = a' @ p"
    using ra rp by (simp add: remove_char_def)
  then show ?thesis
    unfolding tv using Decimal_plain[OF ad bd pb pe] by simp
qed

lemma amount_token_shape:
  "\<exists>a p. amount_token s = a @ p \<and> set a \<subseteq> set ''0123456789,'' \<and>
     (p = [] \<or> (\<exists>b. p = CHR ''.'' # b \<and> (\<forall>c \<in> set b. is_digit c)))"
proof -
  let ?P' = "\<lambda>c. c \<in> set ''0123456789,''"
  let ?P = "\<lambda>c. c \<in> set ''0123456789''"
  define a where "a = takeWhile ?P' s"
  define r where "r = dropWhile ?P' s"
  define p where "p = (case r of [] \<Rightarrow> [] | c # t \<Rightarrow> if c = CHR ''.'' then c # takeWhile ?P t else [])"
  have sa: "set a \<subseteq> set ''0123456789,''"
    unfolding a_def using set_takeWhileD by fastforce
  have tok: "amount_token s = a @ p"
    unfolding amount_token_def Let_def a_def[symmetric] r_def[symmetric] p_def
    by (cases r) simp_all
  have "p = [] \<or> (\<exists>b. p = CHR ''.'' # b \<and> (\<forall>c \<in> set b. is_digit c))"
  proof (cases r)
    case Nil
    then show ?thesis by (simp add: p_def)
  next
    case (Cons c t)
    have "\<forall>x \<in> set (takeWhile ?P t). is_digit x"
      unfolding is_digit_def digit_chars_def using set_takeWhileD by fastforce
    with Cons show ?thesis by (simp add: p_def)
  qed
  with sa tok show ?thesis by blast
qed

lemma Decimal_amount_token:
  "Decimal (remove_char CHR '','' (amount_token s)) = map_option Dec (token_value (amount_token s))"
proof -
  from amount_token_shape[of s] obtain a p where
    "amount_token s = a @ p" "set a \<subseteq> set ''0123456789,''"
    "p = [] \<or> (\<exists>b. p = CHR ''.'' # b \<and> (\<forall>c \<in> set b. is_digit c))" by blast
  then show ?thesis using token_parts[of a p] by simp
qed

lemma find_amount_token: "find_amount s = Some g \<Longrightarrow> \<exists>u. g = amount_token u"
  by (induction s rule: find_amount.induct) (auto split: if_splits)

lemma extract_amount_scan:
  "extract_amount s amount_re =
     (case find_amount s of
        None \<Rightarrow> Inl amount_not_found
      | Some g \<Rightarrow>
          (case token_value g of
             None \<Rightarrow> Inl (amount_malformed (remove_char CHR '','' g))
           | Some q \<Rightarrow> Inr (Dec q)))"
proof (cases "find_amount s")
  case None
  then show ?thesis by (simp add: extract_amount_def re_search_amount)
next
  case (Some g)
  then obtain u where "g = amount_token u" using find_amount_token by blast
  then have "Decimal (remove_char CHR '','' g) = map_option Dec (token_value g)"
    by (simp only: Decimal_amount_token)
  with Some show ?thesis
    by (cases "token_value g") (simp_all add: extract_amount_def re_search_amount group_def Let_def)
qed

subsubsection \<open>Amount extraction\<close>

lemma amount_msgs_differ: "amount_malformed s \<noteq> amount_not_found"
  by (simp add: amount_malformed_def amount_not_found_def)

lemmas Decimal_eval = Decimal_def strip_def remove_char_def split_sign_def is_digit_def
  digit_chars_def is_space_def whitespace_def digits_value_def digit_val_def parse_exponent_def
  pow10_def lower_def lower_char_def upper_letters_def lower_letters_def Let_def

lemma Decimal_exponent: "Decimal ''1e3'' = Some (Dec 1000)"
  by (simp add: Decimal_eval)

lemma Decimal_negative: "Decimal ''-2.5E-1'' = Some (Dec (- 1 / 4))"
  by (simp add: Decimal_eval)

lemma Decimal_underscore: "Decimal (CHR 0xA0 # '' +1_000 '') = Some (Dec 1000)"
  by (simp add: Decimal_eval)

lemma Decimal_infinity: "Decimal ''-Infinity'' = Some (DInf True)"
  by (simp add: Decimal_eval)

lemma Decimal_nan: "Decimal ''NaN'' = Some DNaN"
  by (simp add: Decimal_eval)

lemma Decimal_no_exponent: "Decimal ''1e'' = None"
  by (simp add: Decimal_eval)

lemma Decimal_no_digits: "Decimal ''e5'' = None"
  by (simp add: Decimal_eval)

lemma Decimal_two_points: "Decimal ''1.2.3'' = None"
  by (simp add: Decimal_eval)

lemma literal_search_exponent: "re_search literal_re ''pay $1e3'' False = Some [Some ''1e3'']"
  by code_simp

lemma literal_search_negative: "re_search literal_re ''pay $-2.5E-1'' False = Some [Some ''-2.5E-1'']"
  by code_simp

lemma literal_search_underscore:
  "re_search literal_re (''pay $'' @ CHR 0xA0 # '' +1_000 '') False = Some [Some (CHR 0xA0 # '' +1_000 '')]"
  by code_simp

lemma literal_search_infinity: "re_search literal_re ''$-Infinity'' False = Some [Some ''-Infinity'']"
  by code_simp

lemma literal_search_nan: "re_search literal_re ''$NaN'' False = Some [Some ''NaN'']"
  by code_simp

lemma literal_search_no_exponent: "re_search literal_re ''$1e'' False = Some [Some ''1e'']"
  by code_simp

lemma literal_search_two_points: "re_search literal_re ''$1.2.3'' False = Some [Some ''1.2.3'']"
  by code_simp

lemma find_amount_example: "find_amount ''you $1,234.56 today'' = Some ''1,234.56''"
  by (simp add: amount_token_def)

lemma find_amount_first: "find_amount ''fee $5 total $1,234.56'' = Some ''5''"
  by (simp add: amount_token_def)

lemma find_amount_comma: "find_amount ''pay $,'' = Some '',''"
  by (simp add: amount_token_def)

lemma token_value_example: "token_value ''1,234.56'' = Some (123456 / 100)"
  by (simp add: token_value_def is_digit_def digit_chars_def digit_val_def)

lemma token_value_first: "token_value ''5'' = Some 5"
  by (simp add: token_value_def is_digit_def digit_chars_def digit_val_def)

lemma token_value_comma: "token_value '','' = None"
  by (simp add: token_value_def is_digit_def digit_chars_def)

text \<open>
  C3, the claim as stated: amount extraction on a text containing \<open>$1,234.56\<close> returns
  1234.56. It does not when an earlier dollar amount stands in the text: the first one is
  returned.
\<close>

theorem extract_amount_counterexample:
  "contains ''fee $5 total $1,234.56'' ''$1,234.56'' \<and>
   extract_amount ''fee $5 total $1,234.56'' amount_re = Inr (Dec 5)"
proof
  show "contains ''fee $5 total $1,234.56'' ''$1,234.56''" by simp
  show "extract_amount ''fee $5 total $1,234.56'' amount_re = Inr (Dec 5)"
    by (simp only: extract_amount_scan find_amount_first token_value_first option.case)
qed

text \<open>
  C3, amended. With the amount pattern of the four providers, \<open>\$([0-9,]+\.?[0-9]*)\<close>, the
  result is decided by the first dollar sign of the text that a digit or a comma follows:
  without one, the amount-not-found error is raised, and only then; otherwise the token after
  it is the longest run of digits and commas, then a point and the digits after it if a point
  follows. A token without a digit raises the amount-malformed error, which names the token
  without its commas; any other token gives the exact decimal whose integer part is read from
  the digits before the point and whose fraction from the digits after it. With any other
  pattern, the amount-not-found error is raised exactly when the pattern has no match, and when
  the first group took part in the match, its text without commas gives the decimal that
  \<open>Decimal\<close> reads from it, or the amount-malformed error when \<open>Decimal\<close> reads none.
\<close>

theorem extract_amount_amended:
  "extract_amount text amount_re =
     (case find_amount text of
        None \<Rightarrow> Inl amount_not_found
      | Some g \<Rightarrow>
          (case token_value g of
             None \<Rightarrow> Inl (amount_malformed (remove_char CHR '','' g))
           | Some q \<Rightarrow> Inr (Dec q))) \<and>
   (extract_amount text amount_re = Inl amount_not_found \<longleftrightarrow>
      \<not> (\<exists>pre d post. text = pre @ CHR ''$'' # d # post \<and> d \<in> set ''0123456789,'')) \<and>
   (extract_amount text pattern = Inl amount_not_found \<longleftrightarrow>
      re_search pattern text False = None) \<and>
   (\<forall>m g. re_search pattern text False = Some m \<and> group m 1 = Inr (Some g) \<longrightarrow>
      extract_amount text pattern =
        (case Decimal (remove_char CHR '','' g) of
           None \<Rightarrow> Inl (amount_malformed (remove_char CHR '','' g))
         | Some d \<Rightarrow> Inr d))"
proof (intro conjI)
  show scan: "extract_amount text amount_re =
     (case find_amount text of
        None \<Rightarrow> Inl amount_not_found
      | Some g \<Rightarrow>
          (case token_value g of
             None \<Rightarrow> Inl (amount_malformed (remove_char CHR '','' g))
           | Some q \<Rightarrow> Inr (Dec q)))"
    by (rule extract_amount_scan)
  have "extract_amount text amount_re = Inl amount_not_found \<longleftrightarrow> find_amount text = None"
    unfolding scan by (simp add: amount_msgs_differ split: option.splits)
  then show "extract_amount text amount_re = Inl amount_not_found \<longleftrightarrow>
      \<not> (\<exists>pre d post. text = pre @ CHR ''$'' # d # post \<and> d \<in> set ''0123456789,'')"
    by (simp only: find_amount_None_iff)
  show "extract_amount text pattern = Inl amount_not_found \<longleftrightarrow>
      re_search pattern text False = None"
    by (auto simp: extract_amount_def Let_def group_def amount_not_found_def
        amount_malformed_def split: option.splits sum.splits)
  show "\<forall>m g. re_search pattern text False = Some m \<and> group m 1 = Inr (Some g) \<longrightarrow>
      extract_amount text pattern =
        (case Decimal (remove_char CHR '','' g) of
           None \<Rightarrow> Inl (amount_malformed (remove_char CHR '','' g))
         | Some d \<Rightarrow> Inr d)"
    by (simp add: extract_amount_def Let_def split: option.splits)
qed

theorem extract_amount_amended_witness:
  "extract_amount ''you $1,234.56 today'' amount_re = Inr (Dec (123456 / 100)) \<and>
   extract_amount ''pay $,'' amount_re = Inl (amount_malformed []) \<and>
   extract_amount ''no amount'' amount_re = Inl amount_not_found \<and>
   extract_amount ''pay $1e3'' literal_re = Inr (Dec 1000) \<and>
   extract_amount ''pay $-2.5E-1'' literal_re = Inr (Dec (- 1 / 4)) \<and>
   extract_amount (''pay $'' @ CHR 0xA0 # '' +1_000 '') literal_re = Inr (Dec 1000) \<and>
   extract_amount ''$-Infinity'' literal_re = Inr (DInf True) \<and>
   extract_amount ''$NaN'' literal_re = Inr DNaN \<and>
   extract_amount ''$1e'' literal_re = Inl (amount_malformed ''1e'') \<and>
   extract_amount ''$1.2.3'' literal_re = Inl (amount_malformed ''1.2.3'')"
proof -
  have g: "group [Some x] 1 = Inr (Some x)" for x :: string by (simp add: group_def)
  have r: "remove_char CHR '','' ''1e3'' = ''1e3''" "remove_char CHR '','' ''-2.5E-1'' = ''-2.5E-1''"
    "remove_char CHR '','' (CHR 0xA0 # '' +1_000 '') = CHR 0xA0 # '' +1_000 ''"
    "remove_char CHR '','' ''-Infinity'' = ''-Infinity''" "remove_char CHR '','' ''NaN'' = ''NaN''"
    "remove_char CHR '','' ''1e'' = ''1e''" "remove_char CHR '','' ''1.2.3'' = ''1.2.3''"
    "remove_char CHR '','' '','' = []"
    by (simp_all add: remove_char_def)
  have c1: "extract_amount ''you $1,234.56 today'' amount_re = Inr (Dec (123456 / 100))"
    using extract_amount_amended[of "''you $1,234.56 today''", THEN conjunct1]
    by (simp only: find_amount_example token_value_example option.case)
  have c2: "extract_amount ''pay $,'' amount_re = Inl (amount_malformed [])"
    using extract_amount_amended[of "''pay $,''", THEN conjunct1]
    by (simp only: find_amount_comma token_value_comma option.case r)
  have "\<not> (\<exists>pre d post. ''no amount'' = pre @ CHR ''$'' # d # post \<and> d \<in> set ''0123456789,'')"
  proof
    assume "\<exists>pre d post. ''no amount'' = pre @ CHR ''$'' # d # post \<and> d \<in> set ''0123456789,''"
    then obtain pre d post where "''no amount'' = pre @ CHR ''$'' # d # post" by blast
    then have "set ''no amount'' = set (pre @ CHR ''$'' # d # post)" by (rule arg_cong)
    then have "CHR ''$'' \<in> set ''no amount''" by simp
    then show False by simp
  qed
  then have c3: "extract_amount ''no amount'' amount_re = Inl amount_not_found"
    using extract_amount_amended[of "''no amount''"] by blast
  note gen = extract_amount_amended[THEN conjunct2, THEN conjunct2, THEN conjunct2, rule_format,
      OF conjI]
  have c4: "extract_amount ''pay $1e3'' literal_re = Inr (Dec 1000)"
    using gen[OF literal_search_exponent g] by (simp only: r Decimal_exponent option.case)
  have c5: "extract_amount ''pay $-2.5E-1'' literal_re = Inr (Dec (- 1 / 4))"
    using gen[OF literal_search_negative g] by (simp only: r Decimal_negative option.case)
  have c6: "extract_amount (''pay $'' @ CHR 0xA0 # '' +1_000 '') literal_re = Inr (Dec 1000)"
    using gen[OF literal_search_underscore g] by (simp only: r Decimal_underscore option.case)
  have c7: "extract_amount ''$-Infinity'' literal_re = Inr (DInf True)"
    using gen[OF literal_search_infinity g] by (simp only: r Decimal_infinity option.case)
  have c8: "extract_amount ''$NaN'' literal_re = Inr DNaN"
    using gen[OF literal_search_nan g] by (simp only: r Decimal_nan option.case)
  have c9: "extract_amount ''$1e'' literal_re = Inl (amount_malformed ''1e'')"
    using gen[OF literal_search_no_exponent g] by (simp only: r Decimal_no_exponent option.case)
  have c10: "extract_amount ''$1.2.3'' literal_re = Inl (amount_malformed ''1.2.3'')"
    using gen[OF literal_search_two_points g] by (simp only: r Decimal_two_points option.case)
  from c1 c2 c3 c4 c5 c6 c7 c8 c9 c10 show ?thesis by (intro conjI)
qed

end
